theory Spec2Isabelle
  imports Main "HOL-Library.Word"
begin

unbundle bit_operations_syntax

section \<open>Machine types and byte-addressed memory\<close>

text \<open>
  \<^verbatim>\<open>spm_sp_setup\<close> is AArch64 code (it builds an \<^verbatim>\<open>SPSR_64\<close> and programs
  \<^verbatim>\<open>SCTLR_EL1\<close>): \<^verbatim>\<open>u_register_t\<close>, \<^verbatim>\<open>uintptr_t\<close> and \<^verbatim>\<open>size_t\<close> are 64-bit words,
  \<^verbatim>\<open>unsigned int\<close> and \<^verbatim>\<open>uint32_t\<close> are 32-bit words, and \<^verbatim>\<open>+\<close>, \<^verbatim>\<open>-\<close>, \<^verbatim>\<open>*\<close> on them wrap.
  Memory is a map from addresses to bytes; multi-byte fields are little-endian.
\<close>

type_synonym u_register_t = "64 word"
type_synonym uintptr_t = "64 word"
type_synonym uint32_t = "32 word"
type_synonym uint8_t = "8 word"
type_synonym memory = "uintptr_t \<Rightarrow> uint8_t"

definition load32 :: "memory \<Rightarrow> uintptr_t \<Rightarrow> uint32_t" where
  "load32 m a =
     ucast (m a) OR push_bit 8 (ucast (m (a + 1))) OR push_bit 16 (ucast (m (a + 2))) OR
     push_bit 24 (ucast (m (a + 3)))"

definition load64 :: "memory \<Rightarrow> uintptr_t \<Rightarrow> u_register_t" where
  "load64 m a =
     ucast (m a) OR push_bit 8 (ucast (m (a + 1))) OR push_bit 16 (ucast (m (a + 2))) OR
     push_bit 24 (ucast (m (a + 3))) OR push_bit 32 (ucast (m (a + 4))) OR
     push_bit 40 (ucast (m (a + 5))) OR push_bit 48 (ucast (m (a + 6))) OR
     push_bit 56 (ucast (m (a + 7)))"

definition store32 :: "memory \<Rightarrow> uintptr_t \<Rightarrow> uint32_t \<Rightarrow> memory" where
  "store32 m a v =
     m(a := ucast v, a + 1 := ucast (drop_bit 8 v), a + 2 := ucast (drop_bit 16 v),
       a + 3 := ucast (drop_bit 24 v))"

definition store64 :: "memory \<Rightarrow> uintptr_t \<Rightarrow> u_register_t \<Rightarrow> memory" where
  "store64 m a v =
     m(a := ucast v, a + 1 := ucast (drop_bit 8 v), a + 2 := ucast (drop_bit 16 v),
       a + 3 := ucast (drop_bit 24 v), a + 4 := ucast (drop_bit 32 v),
       a + 5 := ucast (drop_bit 40 v), a + 6 := ucast (drop_bit 48 v),
       a + 7 := ucast (drop_bit 56 v))"

text \<open>
  Modelled from the spec: \<^verbatim>\<open>memcpy\<close> belongs to the firmware's C library, which is not
  among the sources; the spec has the record copied "byte-for-byte" and the array copied
  "verbatim". The bytes are copied one at a time in ascending address order.
\<close>

fun memcpy :: "memory \<Rightarrow> uintptr_t \<Rightarrow> uintptr_t \<Rightarrow> nat \<Rightarrow> memory" where
  "memcpy m dst src 0 = m"
| "memcpy m dst src (Suc len) = memcpy (m(dst := m src)) (dst + 1) (src + 1) len"

text \<open>Two byte ranges, neither wrapping around the end of the address space, that do not
  overlap.\<close>

definition separate :: "uintptr_t \<Rightarrow> nat \<Rightarrow> uintptr_t \<Rightarrow> nat \<Rightarrow> bool" where
  "separate a la b lb =
     (unat a + la \<le> 2 ^ 64 \<and> unat b + lb \<le> 2 ^ 64 \<and>
      (unat a + la \<le> unat b \<or> unat b + lb \<le> unat a))"


section \<open>Constants of headers that are not among the sources\<close>

text \<open>
  The macros of \<^verbatim>\<open>arch.h\<close>, \<^verbatim>\<open>ep_info.h\<close>, the translation-table library and
  \<^verbatim>\<open>secure_partition.h\<close> are parameters of the model, one field per macro.
\<close>

record sctlr_bits =
  SCTLR_UCI_BIT :: u_register_t
  SCTLR_WXN_BIT :: u_register_t
  SCTLR_NTWI_BIT :: u_register_t
  SCTLR_NTWE_BIT :: u_register_t
  SCTLR_UCT_BIT :: u_register_t
  SCTLR_DZE_BIT :: u_register_t
  SCTLR_SA0_BIT :: u_register_t
  SCTLR_C_BIT :: u_register_t
  SCTLR_I_BIT :: u_register_t
  SCTLR_M_BIT :: u_register_t
  SCTLR_E0E_BIT :: u_register_t
  SCTLR_A_BIT :: u_register_t
  SCTLR_UMA_BIT :: u_register_t

record arch_h =
  MODE_EL0 :: uint32_t
  MODE_SP_EL0 :: uint32_t
  DISABLE_ALL_EXCEPTIONS :: uint32_t
  SPSR_64 :: "uint32_t \<Rightarrow> uint32_t \<Rightarrow> uint32_t \<Rightarrow> uint32_t"
  EL0PTEN_BIT :: u_register_t
  EL0VTEN_BIT :: u_register_t
  EL0PCTEN_BIT :: u_register_t
  EL0VCTEN_BIT :: u_register_t
  CPACR_EL1_FP_TRAP_NONE :: u_register_t
  CPACR_EL1_FPEN :: "u_register_t \<Rightarrow> u_register_t"

record ep_info_h =
  PARAM_EP :: uint8_t
  VERSION_1 :: uint8_t
  SECURE :: uint32_t
  EP_ST_ENABLE :: uint32_t
  sizeof_entry_point_info_t :: "16 word"

record xlat_tables_h =
  MT_CODE :: uint32_t
  MT_SECURE :: uint32_t
  MT_PRIVILEGED :: uint32_t
  EL1_EL0_REGIME :: uint32_t

text \<open>
  The layout of \<^verbatim>\<open>secure_partition_boot_info_t\<close>: its size and the offsets of the two
  fields the code reads, \<^verbatim>\<open>num_cpus\<close> (a \<^verbatim>\<open>uint32_t\<close>) and \<^verbatim>\<open>mp_info\<close> (a pointer).
\<close>

record secure_partition_h =
  MP_INFO_FLAG_PRIMARY_CPU :: uint32_t
  sizeof_boot_info :: nat
  offsetof_num_cpus :: nat
  offsetof_mp_info :: nat

text \<open>
  Modelled from the spec: the layout of \<^verbatim>\<open>secure_partition_mp_info_t\<close>, whose declaration
  is not among the sources. The spec lists the fields in order (affinity identifier, linear
  index, flag bitset) and its example has records of 16 bytes; the code reads \<^verbatim>\<open>mpidr\<close>
  into a \<^verbatim>\<open>u_register_t\<close> and treats the other two fields as 32-bit values.
\<close>

definition sizeof_mp_info :: "uintptr_t" where
  "sizeof_mp_info = 16"

definition offsetof_mpidr :: "uintptr_t" where
  "offsetof_mpidr = 0"

definition offsetof_linear_id :: "uintptr_t" where
  "offsetof_linear_id = 8"

definition offsetof_flags :: "uintptr_t" where
  "offsetof_flags = 12"

section \<open>The platform port and the build\<close>

record mmap_region =
  base_pa :: uintptr_t
  base_va :: uintptr_t
  region_size :: uintptr_t
  attr :: uint32_t

text \<open>
  \<^verbatim>\<open>platform_def.h\<close> of a platform with a secure partition, the \<^verbatim>\<open>plat_*\<close> functions the
  routine calls, and the build flag \<^verbatim>\<open>ENABLE_ASSERTIONS\<close>. The result of
  \<^verbatim>\<open>plat_core_pos_by_mpidr\<close> (an \<^verbatim>\<open>int\<close>) is stored into the 32-bit \<^verbatim>\<open>linear_id\<close>.
\<close>

record platform =
  ENABLE_ASSERTIONS :: bool
  BL32_BASE :: uintptr_t
  PLAT_SPM_BUF_BASE :: uintptr_t
  PLAT_SPM_BUF_SIZE :: uintptr_t
  PLAT_SPM_COOKIE_0 :: u_register_t
  PLAT_SPM_COOKIE_1 :: u_register_t
  PLAT_SP_IMAGE_STACK_BASE :: u_register_t
  PLAT_SP_IMAGE_STACK_PCPU_SIZE :: u_register_t
  PLAT_SP_IMAGE_NS_BUF_BASE :: uintptr_t
  PLAT_SP_IMAGE_NS_BUF_SIZE :: uintptr_t
  PLATFORM_CORE_COUNT :: uint32_t
  SPM_SHIM_EXCEPTIONS_START :: uintptr_t
  SPM_SHIM_EXCEPTIONS_SIZE :: uintptr_t
  SPM_SHIM_EXCEPTIONS_PTR :: u_register_t
  xlat_arch_get_max_supported_granule_size :: uint32_t
  plat_get_secure_partition_mmap :: "mmap_region list"
  plat_get_secure_partition_boot_info :: uintptr_t
  plat_core_pos_by_mpidr :: "u_register_t \<Rightarrow> uint32_t"
  plat_my_core_pos :: uint32_t

section \<open>Entry point descriptor and execution context\<close>

record param_header =
  h_type :: uint8_t
  h_version :: uint8_t
  h_size :: "16 word"
  h_attr :: uint32_t

record aapcs64_params =
  arg0 :: u_register_t
  arg1 :: u_register_t
  arg2 :: u_register_t
  arg3 :: u_register_t
  arg4 :: u_register_t
  arg5 :: u_register_t
  arg6 :: u_register_t
  arg7 :: u_register_t

record entry_point_info =
  h :: param_header
  pc :: uintptr_t
  spsr :: uint32_t
  args :: aapcs64_params

datatype gpreg = CTX_GPREG_SP_EL0 | CTX_GPREG_OTHER nat

datatype sysreg =
  CTX_MAIR_EL1 | CTX_TCR_EL1 | CTX_TTBR0_EL1 | CTX_SCTLR_EL1 | CTX_VBAR_EL1 |
  CTX_CNTKCTL_EL1 | CTX_CPACR_EL1 | CTX_SYSREG_OTHER nat

record cpu_context =
  gpregs_ctx :: "gpreg \<Rightarrow> u_register_t"
  sysregs_ctx :: "sysreg \<Rightarrow> u_register_t"
  el3state_ctx :: "nat \<Rightarrow> u_register_t"

record xlat_ctx =
  base_table :: uintptr_t
  pa_max_address :: uintptr_t
  va_max_address :: uintptr_t
  mmap :: "mmap_region list"
  initialized :: bool

record sp_context =
  cpu_ctx :: cpu_context
  xlat_ctx_handle :: xlat_ctx

record mmu_cfg_params =
  MMU_CFG_MAIR :: u_register_t
  MMU_CFG_TCR :: u_register_t
  MMU_CFG_TTBR0 :: u_register_t

text \<open>
  The routines of other modules that \<^verbatim>\<open>spm_sp_setup\<close> calls: the context-management
  primitive, the translation-table library and the derivation of the MMU registers.
\<close>

record lib =
  cm_setup_context :: "cpu_context \<Rightarrow> entry_point_info \<Rightarrow> cpu_context"
  mmap_add_region_ctx :: "xlat_ctx \<Rightarrow> mmap_region \<Rightarrow> xlat_ctx"
  mmap_add_ctx :: "xlat_ctx \<Rightarrow> mmap_region list \<Rightarrow> xlat_ctx"
  init_xlat_tables_ctx :: "xlat_ctx \<Rightarrow> xlat_ctx"
  setup_mmu_cfg ::
    "uint32_t \<Rightarrow> uintptr_t \<Rightarrow> uintptr_t \<Rightarrow> uintptr_t \<Rightarrow> uint32_t \<Rightarrow> mmu_cfg_params"

record env =
  sctlr :: sctlr_bits
  arch :: arch_h
  ep :: ep_info_h
  xlat :: xlat_tables_h
  sp :: secure_partition_h
  plat :: platform
  ext :: lib

definition read_ctx_reg :: "('r \<Rightarrow> u_register_t) \<Rightarrow> 'r \<Rightarrow> u_register_t" where
  "read_ctx_reg regs r = regs r"

definition write_ctx_reg :: "('r \<Rightarrow> u_register_t) \<Rightarrow> 'r \<Rightarrow> u_register_t \<Rightarrow> ('r \<Rightarrow> u_register_t)" where
  "write_ctx_reg regs r v = regs(r := v)"

definition write_sysreg :: "cpu_context \<Rightarrow> sysreg \<Rightarrow> u_register_t \<Rightarrow> cpu_context" where
  "write_sysreg ctx r v = ctx\<lparr>sysregs_ctx := write_ctx_reg (sysregs_ctx ctx) r v\<rparr>"

definition write_gpreg :: "cpu_context \<Rightarrow> gpreg \<Rightarrow> u_register_t \<Rightarrow> cpu_context" where
  "write_gpreg ctx r v = ctx\<lparr>gpregs_ctx := write_ctx_reg (gpregs_ctx ctx) r v\<rparr>"

section \<open>Assertions\<close>

text \<open>The eight \<^verbatim>\<open>assert\<close>s of the routine, in source order (lines 87, 90, 195, 198, 203,
  212, 232 and 234).\<close>

datatype assertion =
  NS_BUF_BASE_ALIGNED | NS_BUF_SIZE_ALIGNED | BOOT_INFO_FITS | BUF_END_NO_OVERFLOW |
  BOOT_INFO_NOT_NULL | MP_INFO_NOT_NULL | NUM_CPUS_IN_RANGE | MP_INFO_FITS

text \<open>
  Modelled from the spec: the \<^verbatim>\<open>assert\<close> macro is not among the sources. By the spec the
  checks are "debug-only assertions; in a production build they are absent", and a failed
  check is fatal: with \<^verbatim>\<open>ENABLE_ASSERTIONS\<close> a false condition stops the routine where it
  stands, without it the condition is not evaluated.
\<close>

definition assert_fails :: "platform \<Rightarrow> bool \<Rightarrow> bool" where
  "assert_fails p e = (ENABLE_ASSERTIONS p \<and> \<not> e)"

section \<open>Initialize CPU context (lines 34-69)\<close>

definition zero_ep_info :: entry_point_info where
  "zero_ep_info =
     \<lparr>h = \<lparr>h_type = 0, h_version = 0, h_size = 0, h_attr = 0\<rparr>, pc = 0, spsr = 0,
      args = \<lparr>arg0 = 0, arg1 = 0, arg2 = 0, arg3 = 0, arg4 = 0, arg5 = 0, arg6 = 0, arg7 = 0\<rparr>\<rparr>"

text \<open>
  Modelled from the spec: \<^verbatim>\<open>SET_PARAM_HEAD\<close> is a macro of a header that is not among the
  sources; it fills in the descriptor's header (for the spec, its "security-state tag") and
  nothing else.
\<close>

definition SET_PARAM_HEAD ::
  "ep_info_h \<Rightarrow> entry_point_info \<Rightarrow> uint8_t \<Rightarrow> uint8_t \<Rightarrow> uint32_t \<Rightarrow> entry_point_info" where
  "SET_PARAM_HEAD e p t v a =
     p\<lparr>h := \<lparr>h_type = t, h_version = v, h_size = sizeof_entry_point_info_t e, h_attr = a\<rparr>\<rparr>"

definition sp_ep_info :: "env \<Rightarrow> entry_point_info" where
  "sp_ep_info E =
     (let ep_info = zero_ep_info;
          ep_info = SET_PARAM_HEAD (ep E) ep_info (PARAM_EP (ep E)) (VERSION_1 (ep E))
                      (SECURE (ep E) OR EP_ST_ENABLE (ep E));
          ep_info = ep_info\<lparr>pc := BL32_BASE (plat E)\<rparr>;
          ep_info = ep_info\<lparr>spsr := SPSR_64 (arch E) (MODE_EL0 (arch E)) (MODE_SP_EL0 (arch E))
                                      (DISABLE_ALL_EXCEPTIONS (arch E))\<rparr>;
          ep_info = ep_info\<lparr>args := (args ep_info)\<lparr>arg0 := PLAT_SPM_BUF_BASE (plat E)\<rparr>\<rparr>;
          ep_info = ep_info\<lparr>args := (args ep_info)\<lparr>arg1 := PLAT_SPM_BUF_SIZE (plat E)\<rparr>\<rparr>;
          ep_info = ep_info\<lparr>args := (args ep_info)\<lparr>arg2 := PLAT_SPM_COOKIE_0 (plat E)\<rparr>\<rparr>;
          ep_info = ep_info\<lparr>args := (args ep_info)\<lparr>arg3 := PLAT_SPM_COOKIE_1 (plat E)\<rparr>\<rparr>
      in ep_info)"

definition setup_cpu_context :: "env \<Rightarrow> cpu_context \<Rightarrow> cpu_context" where
  "setup_cpu_context E ctx =
     (let ctx = cm_setup_context (ext E) ctx (sp_ep_info E)
      in write_gpreg ctx CTX_GPREG_SP_EL0
           (PLAT_SP_IMAGE_STACK_BASE (plat E) + PLAT_SP_IMAGE_STACK_PCPU_SIZE (plat E)))"

section \<open>Setup translation tables and MMU-related registers (lines 76-185)\<close>

definition MAP_REGION_FLAT :: "uintptr_t \<Rightarrow> uintptr_t \<Rightarrow> uint32_t \<Rightarrow> mmap_region" where
  "MAP_REGION_FLAT adr sz at = \<lparr>base_pa = adr, base_va = adr, region_size = sz, attr = at\<rparr>"

text \<open>The block under \<^verbatim>\<open>#if ENABLE_ASSERTIONS\<close>: \<^verbatim>\<open>max_granule_mask\<close> is an
  \<^verbatim>\<open>unsigned int\<close>, widened to the width of the platform constants it masks.\<close>

definition granule_assertion :: "platform \<Rightarrow> assertion option" where
  "granule_assertion p =
     (if ENABLE_ASSERTIONS p then
        (let max_granule = xlat_arch_get_max_supported_granule_size p;
             max_granule_mask = max_granule - 1
         in if assert_fails p ((PLAT_SP_IMAGE_NS_BUF_BASE p AND ucast max_granule_mask) = 0)
            then Some NS_BUF_BASE_ALIGNED
            else if assert_fails p ((PLAT_SP_IMAGE_NS_BUF_SIZE p AND ucast max_granule_mask) = 0)
            then Some NS_BUF_SIZE_ALIGNED
            else None)
      else None)"

definition setup_xlat_tables :: "env \<Rightarrow> xlat_ctx \<Rightarrow> xlat_ctx" where
  "setup_xlat_tables E x =
     (let sel1_exception_vectors =
            MAP_REGION_FLAT (SPM_SHIM_EXCEPTIONS_START (plat E)) (SPM_SHIM_EXCEPTIONS_SIZE (plat E))
              (MT_CODE (xlat E) OR MT_SECURE (xlat E) OR MT_PRIVILEGED (xlat E));
          x = mmap_add_region_ctx (ext E) x sel1_exception_vectors;
          x = mmap_add_ctx (ext E) x (plat_get_secure_partition_mmap (plat E))
      in init_xlat_tables_ctx (ext E) x)"

definition setup_mmu_regs :: "env \<Rightarrow> xlat_ctx \<Rightarrow> cpu_context \<Rightarrow> cpu_context" where
  "setup_mmu_regs E xlat_ctx ctx =
     (let mmu_cfg_params =
            setup_mmu_cfg (ext E) 0 (base_table xlat_ctx) (pa_max_address xlat_ctx)
              (va_max_address xlat_ctx) (EL1_EL0_REGIME (xlat E));
          ctx = write_sysreg ctx CTX_MAIR_EL1 (MMU_CFG_MAIR mmu_cfg_params);
          ctx = write_sysreg ctx CTX_TCR_EL1 (MMU_CFG_TCR mmu_cfg_params)
      in write_sysreg ctx CTX_TTBR0_EL1 (MMU_CFG_TTBR0 mmu_cfg_params))"

definition sctlr_set_mask :: "sctlr_bits \<Rightarrow> u_register_t" where
  "sctlr_set_mask b =
     SCTLR_UCI_BIT b OR SCTLR_WXN_BIT b OR SCTLR_NTWI_BIT b OR SCTLR_NTWE_BIT b OR
     SCTLR_UCT_BIT b OR SCTLR_DZE_BIT b OR SCTLR_SA0_BIT b OR SCTLR_C_BIT b OR SCTLR_I_BIT b OR
     SCTLR_M_BIT b"

definition sctlr_clear_mask :: "sctlr_bits \<Rightarrow> u_register_t" where
  "sctlr_clear_mask b = SCTLR_E0E_BIT b OR SCTLR_A_BIT b OR SCTLR_UMA_BIT b"

definition sctlr_el1_update :: "sctlr_bits \<Rightarrow> u_register_t \<Rightarrow> u_register_t" where
  "sctlr_el1_update b sctlr_el1 =
     (let sctlr_el1 = sctlr_el1 OR sctlr_set_mask b;
          sctlr_el1 = sctlr_el1 AND NOT (sctlr_clear_mask b)
      in sctlr_el1)"

definition setup_sctlr_el1 :: "env \<Rightarrow> cpu_context \<Rightarrow> cpu_context" where
  "setup_sctlr_el1 E ctx =
     (let sctlr_el1 = read_ctx_reg (sysregs_ctx ctx) CTX_SCTLR_EL1
      in write_sysreg ctx CTX_SCTLR_EL1 (sctlr_el1_update (sctlr E) sctlr_el1))"

definition setup_other_sysregs :: "env \<Rightarrow> cpu_context \<Rightarrow> cpu_context" where
  "setup_other_sysregs E ctx =
     (let ctx = write_sysreg ctx CTX_VBAR_EL1 (SPM_SHIM_EXCEPTIONS_PTR (plat E));
          ctx = write_sysreg ctx CTX_CNTKCTL_EL1
                  (EL0PTEN_BIT (arch E) OR EL0VTEN_BIT (arch E) OR EL0PCTEN_BIT (arch E) OR
                   EL0VCTEN_BIT (arch E))
      in write_sysreg ctx CTX_CPACR_EL1
           (CPACR_EL1_FPEN (arch E) (CPACR_EL1_FP_TRAP_NONE (arch E))))"

text \<open>The Translation Table Installer: it stops at a failed granule assertion with the
  context as it found it.\<close>

definition install_translation_tables :: "env \<Rightarrow> sp_context \<Rightarrow> (assertion \<times> sp_context) + sp_context" where
  "install_translation_tables E sp_ctx =
     (case granule_assertion (plat E) of
        Some a \<Rightarrow> Inl (a, sp_ctx)
      | None \<Rightarrow>
          (let xlat_ctx = setup_xlat_tables E (xlat_ctx_handle sp_ctx);
               ctx = setup_mmu_regs E xlat_ctx (cpu_ctx sp_ctx);
               ctx = setup_sctlr_el1 E ctx;
               ctx = setup_other_sysregs E ctx
           in Inr (sp_ctx\<lparr>cpu_ctx := ctx, xlat_ctx_handle := xlat_ctx\<rparr>)))"

section \<open>Prepare information in the buffer shared between EL3 and S-EL0 (lines 192-253)\<close>

text \<open>The address of \<^verbatim>\<open>sp_mp_info[index]\<close>.\<close>

definition mp_info_elem :: "uintptr_t \<Rightarrow> uint32_t \<Rightarrow> uintptr_t" where
  "mp_info_elem sp_mp_info index = sp_mp_info + ucast index * sizeof_mp_info"

text \<open>The body of the \<^verbatim>\<open>for\<close> loop of lines 247-253 for one \<^verbatim>\<open>index\<close>.\<close>

definition annotate_record :: "secure_partition_h \<Rightarrow> platform \<Rightarrow> uintptr_t \<Rightarrow> uint32_t \<Rightarrow> memory \<Rightarrow> memory" where
  "annotate_record L p sp_mp_info index m =
     (let r = mp_info_elem sp_mp_info index;
          mpidr = load64 m (r + offsetof_mpidr);
          m = store32 m (r + offsetof_linear_id) (plat_core_pos_by_mpidr p mpidr)
      in if plat_my_core_pos p = load32 m (r + offsetof_linear_id)
         then store32 m (r + offsetof_flags)
                (load32 m (r + offsetof_flags) OR MP_INFO_FLAG_PRIMARY_CPU L)
         else m)"

text \<open>A \<^verbatim>\<open>secure_partition_mp_info_t\<close> as a value, read from memory at the record's address;
  \<open>read_mp_array\<close> reads \<open>n\<close> consecutive records.\<close>

record mp_info =
  mpidr :: u_register_t
  linear_id :: uint32_t
  flags :: uint32_t

definition read_mp_info :: "memory \<Rightarrow> uintptr_t \<Rightarrow> mp_info" where
  "read_mp_info m r =
     \<lparr>mpidr = load64 m (r + offsetof_mpidr), linear_id = load32 m (r + offsetof_linear_id),
      flags = load32 m (r + offsetof_flags)\<rparr>"

definition read_mp_array :: "memory \<Rightarrow> uintptr_t \<Rightarrow> nat \<Rightarrow> mp_info list" where
  "read_mp_array m a n = map (\<lambda>i. read_mp_info m (a + of_nat (16 * i))) [0..<n]"

text \<open>What the loop body of lines 248-252 does to the value of the record it visits.\<close>

definition annotated :: "secure_partition_h \<Rightarrow> platform \<Rightarrow> mp_info \<Rightarrow> mp_info" where
  "annotated L p r =
     r\<lparr>linear_id := plat_core_pos_by_mpidr p (mpidr r),
       flags := (if plat_my_core_pos p = plat_core_pos_by_mpidr p (mpidr r)
                 then flags r OR MP_INFO_FLAG_PRIMARY_CPU L else flags r)\<rparr>"

text \<open>The loop itself: the bound \<^verbatim>\<open>sp_boot_info->num_cpus\<close> is read from the platform's
  record before every iteration, and \<^verbatim>\<open>index\<close> is an \<^verbatim>\<open>unsigned int\<close>.\<close>

function annotate_loop ::
  "secure_partition_h \<Rightarrow> platform \<Rightarrow> uintptr_t \<Rightarrow> uintptr_t \<Rightarrow> uint32_t \<Rightarrow> memory \<Rightarrow> memory" where
  "annotate_loop L p sp_boot_info sp_mp_info index m =
     (if index < load32 m (sp_boot_info + of_nat (offsetof_num_cpus L))
      then annotate_loop L p sp_boot_info sp_mp_info (index + 1)
             (annotate_record L p sp_mp_info index m)
      else m)"
  by pat_completeness auto
termination
proof (relation "measure (\<lambda>(L, p, sp_boot_info, sp_mp_info, index, m). 2 ^ 32 - unat index)")
  show "wf (measure (\<lambda>(L, p, sp_boot_info, sp_mp_info, index, m). 2 ^ 32 - unat (index :: uint32_t)))"
    by simp
next
  fix L :: secure_partition_h and p :: platform and sp_boot_info sp_mp_info :: uintptr_t
    and index :: uint32_t and m :: memory
  assume "index < load32 m (sp_boot_info + of_nat (offsetof_num_cpus L))"
  then have "index + 1 \<noteq> 0"
    using max_word_wrap [of index]
      word_order.extremum_strict [of "load32 m (sp_boot_info + of_nat (offsetof_num_cpus L))"]
    by auto
  then have "unat (index + 1) = Suc (unat index)"
    by (metis add.commute unatSuc)
  moreover have "unat index < 2 ^ 32"
    using unsigned_less [of index] by simp
  ultimately show
    "((L, p, sp_boot_info, sp_mp_info, index + 1, annotate_record L p sp_mp_info index m),
      (L, p, sp_boot_info, sp_mp_info, index, m))
     \<in> measure (\<lambda>(L, p, sp_boot_info, sp_mp_info, index, m). 2 ^ 32 - unat index)"
    by simp
qed

declare annotate_loop.simps [simp del]

text \<open>The Boot-Info Marshaller. A failed assertion returns the memory as it is at that
  point. \<^verbatim>\<open>UINTPTR_MAX\<close> is \<open>- 1\<close>.\<close>

definition marshal_boot_info :: "secure_partition_h \<Rightarrow> platform \<Rightarrow> memory \<Rightarrow> (assertion \<times> memory) + memory" where
  "marshal_boot_info L p m =
     (let shared_buf_ptr = PLAT_SPM_BUF_BASE p in
      if assert_fails p (shared_buf_ptr + of_nat (sizeof_boot_info L)
                           \<le> PLAT_SPM_BUF_BASE p + PLAT_SPM_BUF_SIZE p)
      then Inl (BOOT_INFO_FITS, m)
      else if assert_fails p (PLAT_SPM_BUF_BASE p \<le> (- 1) - PLAT_SPM_BUF_SIZE p + 1)
      then Inl (BUF_END_NO_OVERFLOW, m)
      else
        let sp_boot_info = plat_get_secure_partition_boot_info p in
        if assert_fails p (sp_boot_info \<noteq> 0)
        then Inl (BOOT_INFO_NOT_NULL, m)
        else
          let m = memcpy m shared_buf_ptr sp_boot_info (sizeof_boot_info L);
              sp_mp_info = load64 m (shared_buf_ptr + of_nat (offsetof_mp_info L)) in
          if assert_fails p (sp_mp_info \<noteq> 0)
          then Inl (MP_INFO_NOT_NULL, m)
          else
            let m = store64 m (shared_buf_ptr + of_nat (offsetof_mp_info L))
                      (shared_buf_ptr + of_nat (sizeof_boot_info L));
                shared_buf_ptr = load64 m (shared_buf_ptr + of_nat (offsetof_mp_info L));
                num_cpus = load32 m (sp_boot_info + of_nat (offsetof_num_cpus L)) in
            if assert_fails p (num_cpus \<le> PLATFORM_CORE_COUNT p)
            then Inl (NUM_CPUS_IN_RANGE, m)
            else if assert_fails p
                      (shared_buf_ptr
                         \<le> PLAT_SPM_BUF_BASE p + PLAT_SPM_BUF_SIZE p
                             - ucast num_cpus * sizeof_mp_info)
            then Inl (MP_INFO_FITS, m)
            else
              let m = memcpy m shared_buf_ptr sp_mp_info (unat (ucast num_cpus * sizeof_mp_info));
                  sp_mp_info = shared_buf_ptr
              in Inr (annotate_loop L p sp_boot_info sp_mp_info 0 m))"

section \<open>The whole routine\<close>

record world =
  sp_ctx :: sp_context
  mem :: memory

definition spm_sp_setup :: "env \<Rightarrow> world \<Rightarrow> (assertion \<times> world) + world" where
  "spm_sp_setup E w =
     (let s = sp_ctx w;
          s = s\<lparr>cpu_ctx := setup_cpu_context E (cpu_ctx s)\<rparr>
      in case install_translation_tables E s of
           Inl (a, s) \<Rightarrow> Inl (a, w\<lparr>sp_ctx := s\<rparr>)
         | Inr s \<Rightarrow>
             (case marshal_boot_info (sp E) (plat E) (mem w) of
                Inl (a, m) \<Rightarrow> Inl (a, \<lparr>sp_ctx = s, mem = m\<rparr>)
              | Inr m \<Rightarrow> Inr \<lparr>sp_ctx = s, mem = m\<rparr>))"

section \<open>Notions used to state the properties\<close>

text \<open>The address \<open>k\<close> bytes after \<open>a\<close>.\<close>

definition at_off :: "uintptr_t \<Rightarrow> nat \<Rightarrow> uintptr_t" where
  "at_off a k = a + of_nat k"

text \<open>The two fields the code reads lie inside the Boot-Info Record.\<close>

definition layout_ok :: "secure_partition_h \<Rightarrow> bool" where
  "layout_ok L =
     (offsetof_mp_info L + 8 \<le> sizeof_boot_info L \<and> offsetof_num_cpus L + 4 \<le> sizeof_boot_info L)"

text \<open>\<^verbatim>\<open>sp_boot_info->num_cpus\<close> and \<^verbatim>\<open>sp_boot_info->mp_info\<close> of the platform's own record,
  as they stand in a memory.\<close>

definition boot_num_cpus :: "secure_partition_h \<Rightarrow> platform \<Rightarrow> memory \<Rightarrow> uint32_t" where
  "boot_num_cpus L p m =
     load32 m (plat_get_secure_partition_boot_info p + of_nat (offsetof_num_cpus L))"

definition boot_mp_info :: "secure_partition_h \<Rightarrow> platform \<Rightarrow> memory \<Rightarrow> uintptr_t" where
  "boot_mp_info L p m =
     load64 m (plat_get_secure_partition_boot_info p + of_nat (offsetof_mp_info L))"

text \<open>
  The conditions under which the Marshaller is meant to run: the two pointers are not null,
  the core count is within the platform's maximum, the end of the buffer does not overflow
  the address space, the record and the array fit in the buffer, and the platform's record
  lies outside the buffer.
\<close>

definition marshal_pre :: "secure_partition_h \<Rightarrow> platform \<Rightarrow> memory \<Rightarrow> bool" where
  "marshal_pre L p m =
     (layout_ok L \<and>
      plat_get_secure_partition_boot_info p \<noteq> 0 \<and>
      boot_mp_info L p m \<noteq> 0 \<and>
      boot_num_cpus L p m \<le> PLATFORM_CORE_COUNT p \<and>
      unat (PLAT_SPM_BUF_BASE p) + unat (PLAT_SPM_BUF_SIZE p) < 2 ^ 64 \<and>
      sizeof_boot_info L + 16 * unat (boot_num_cpus L p m) \<le> unat (PLAT_SPM_BUF_SIZE p) \<and>
      separate (plat_get_secure_partition_boot_info p) (sizeof_boot_info L)
        (PLAT_SPM_BUF_BASE p) (unat (PLAT_SPM_BUF_SIZE p)))"

text \<open>The platform's MP-Info array lies outside the buffer.\<close>

definition array_outside_buffer :: "secure_partition_h \<Rightarrow> platform \<Rightarrow> memory \<Rightarrow> bool" where
  "array_outside_buffer L p m =
     separate (boot_mp_info L p m) (16 * unat (boot_num_cpus L p m))
       (PLAT_SPM_BUF_BASE p) (unat (PLAT_SPM_BUF_SIZE p))"

text \<open>The memory after the first \<^verbatim>\<open>memcpy\<close> (lines 205-206), and after the pointer of the
  copied record is patched (lines 218-220).\<close>

definition boot_info_copied :: "secure_partition_h \<Rightarrow> platform \<Rightarrow> memory \<Rightarrow> memory" where
  "boot_info_copied L p m =
     memcpy m (PLAT_SPM_BUF_BASE p) (plat_get_secure_partition_boot_info p) (sizeof_boot_info L)"

definition boot_info_patched :: "secure_partition_h \<Rightarrow> platform \<Rightarrow> memory \<Rightarrow> memory" where
  "boot_info_patched L p m =
     store64 (boot_info_copied L p m) (PLAT_SPM_BUF_BASE p + of_nat (offsetof_mp_info L))
       (PLAT_SPM_BUF_BASE p + of_nat (sizeof_boot_info L))"

text \<open>A record carries the primary-core flag.\<close>

definition is_primary :: "secure_partition_h \<Rightarrow> mp_info \<Rightarrow> bool" where
  "is_primary L r = (flags r AND MP_INFO_FLAG_PRIMARY_CPU L = MP_INFO_FLAG_PRIMARY_CPU L)"

section \<open>A concrete platform\<close>

text \<open>
  The example of the spec: two cores, records of 16 bytes, a Boot-Info Record of 64 bytes and
  a buffer of 256 bytes. The buffer is at \<open>0x8000\<close>, the platform's record at \<open>0x1000\<close> and
  its array at \<open>0x2000\<close>; the two cores have the affinities 0 and 1, and the linear index of
  a core is the low byte of its affinity. The bits of \<^verbatim>\<open>SCTLR_EL1\<close> are those of the
  architecture.
\<close>

definition example_layout :: secure_partition_h where
  "example_layout =
     \<lparr>MP_INFO_FLAG_PRIMARY_CPU = 1, sizeof_boot_info = 64, offsetof_num_cpus = 52,
      offsetof_mp_info = 56\<rparr>"

definition example_platform :: platform where
  "example_platform =
     \<lparr>ENABLE_ASSERTIONS = True, BL32_BASE = 0xFF200000, PLAT_SPM_BUF_BASE = 0x8000,
      PLAT_SPM_BUF_SIZE = 0x100, PLAT_SPM_COOKIE_0 = 0, PLAT_SPM_COOKIE_1 = 0,
      PLAT_SP_IMAGE_STACK_BASE = 0xFF400000, PLAT_SP_IMAGE_STACK_PCPU_SIZE = 0x2000,
      PLAT_SP_IMAGE_NS_BUF_BASE = 0xFF600000, PLAT_SP_IMAGE_NS_BUF_SIZE = 0x10000,
      PLATFORM_CORE_COUNT = 8, SPM_SHIM_EXCEPTIONS_START = 0xFF100000,
      SPM_SHIM_EXCEPTIONS_SIZE = 0x1000, SPM_SHIM_EXCEPTIONS_PTR = 0xFF100000,
      xlat_arch_get_max_supported_granule_size = 0x10000,
      plat_get_secure_partition_mmap = [],
      plat_get_secure_partition_boot_info = 0x1000,
      plat_core_pos_by_mpidr = (\<lambda>mpidr. ucast (mpidr AND 0xFF)),
      plat_my_core_pos = 0\<rparr>"

definition example_memory :: memory where
  "example_memory = (\<lambda>a. 0)(0x1034 := 2, 0x1039 := 0x20, 0x2010 := 1)"

text \<open>A record that reports no cores and points at an (empty) array at \<open>0x2000\<close>; and one
  that reports no cores and whose array pointer is \<open>0x8040\<close>, the address just past where
  the record will be copied.\<close>

definition no_cpus_memory :: memory where
  "no_cpus_memory = (\<lambda>a. 0)(0x1039 := 0x20)"

definition in_place_memory :: memory where
  "in_place_memory = (\<lambda>a. 0)(0x1038 := 0x40, 0x1039 := 0x80)"

text \<open>A platform whose buffer lies at \<open>0x100\<close> and that allows 64 cores, and a record that
  reports 40 of them.\<close>

definition low_buffer_platform :: platform where
  "low_buffer_platform =
     example_platform\<lparr>PLAT_SPM_BUF_BASE := 0x100, PLATFORM_CORE_COUNT := 64\<rparr>"

definition many_cpus_memory :: memory where
  "many_cpus_memory = (\<lambda>a. 0)(0x1034 := 40, 0x1039 := 0x20)"

text \<open>A record that reports one core and whose array pointer is \<open>0x8020\<close>, inside the part
  of the buffer where the record is copied; the one record of that array has the affinity
  \<open>0x55\<close>.\<close>

definition array_in_buffer_memory :: memory where
  "array_in_buffer_memory = (\<lambda>a. 0)(0x1034 := 1, 0x1038 := 0x20, 0x1039 := 0x80, 0x8020 := 0x55)"

text \<open>A platform whose own record lies at \<open>0x8040\<close>, inside the buffer just past the place of
  the record's copy; the record reports one core and an array at \<open>0x2000\<close>, whose one record
  has the affinity \<open>0x55\<close>.\<close>

definition record_in_buffer_platform :: platform where
  "record_in_buffer_platform = example_platform\<lparr>plat_get_secure_partition_boot_info := 0x8040\<rparr>"

definition record_in_buffer_memory :: memory where
  "record_in_buffer_memory = (\<lambda>a. 0)(0x8074 := 1, 0x8079 := 0x20, 0x2000 := 0x55)"

definition aarch64_sctlr_bits :: sctlr_bits where
  "aarch64_sctlr_bits =
     \<lparr>SCTLR_UCI_BIT = push_bit 26 1, SCTLR_WXN_BIT = push_bit 19 1,
      SCTLR_NTWI_BIT = push_bit 16 1, SCTLR_NTWE_BIT = push_bit 18 1,
      SCTLR_UCT_BIT = push_bit 15 1, SCTLR_DZE_BIT = push_bit 14 1,
      SCTLR_SA0_BIT = push_bit 4 1, SCTLR_C_BIT = push_bit 2 1, SCTLR_I_BIT = push_bit 12 1,
      SCTLR_M_BIT = push_bit 0 1, SCTLR_E0E_BIT = push_bit 24 1, SCTLR_A_BIT = push_bit 1 1,
      SCTLR_UMA_BIT = push_bit 9 1\<rparr>"

definition example_lib :: lib where
  "example_lib =
     \<lparr>cm_setup_context = (\<lambda>ctx e. ctx),
      mmap_add_region_ctx = (\<lambda>x r. x\<lparr>mmap := r # mmap x\<rparr>),
      mmap_add_ctx = (\<lambda>x rs. x\<lparr>mmap := mmap x @ rs\<rparr>),
      init_xlat_tables_ctx = (\<lambda>x. x\<lparr>initialized := True\<rparr>),
      setup_mmu_cfg = (\<lambda>fl bt pa va regime.
         \<lparr>MMU_CFG_MAIR = 0x4404FF, MMU_CFG_TCR = 0x80803520, MMU_CFG_TTBR0 = bt\<rparr>)\<rparr>"

definition example_env :: env where
  "example_env =
     \<lparr>sctlr = aarch64_sctlr_bits,
      arch = \<lparr>MODE_EL0 = 0, MODE_SP_EL0 = 0, DISABLE_ALL_EXCEPTIONS = 0xF,
              SPSR_64 = (\<lambda>el s daif. push_bit 2 el OR s OR push_bit 6 daif),
              EL0PTEN_BIT = push_bit 9 1, EL0VTEN_BIT = push_bit 8 1,
              EL0PCTEN_BIT = push_bit 0 1, EL0VCTEN_BIT = push_bit 1 1,
              CPACR_EL1_FP_TRAP_NONE = 3, CPACR_EL1_FPEN = (\<lambda>x. push_bit 20 x)\<rparr>,
      ep = \<lparr>PARAM_EP = 1, VERSION_1 = 1, SECURE = 0, EP_ST_ENABLE = 4,
            sizeof_entry_point_info_t = 88\<rparr>,
      xlat = \<lparr>MT_CODE = 2, MT_SECURE = 0, MT_PRIVILEGED = 0, EL1_EL0_REGIME = 1\<rparr>,
      sp = example_layout,
      plat = example_platform,
      ext = example_lib\<rparr>"

definition example_sp_context :: sp_context where
  "example_sp_context =
     \<lparr>cpu_ctx = \<lparr>gpregs_ctx = (\<lambda>r. 0), sysregs_ctx = (\<lambda>r. 0), el3state_ctx = (\<lambda>r. 0)\<rparr>,
      xlat_ctx_handle = \<lparr>base_table = 0xFF300000, pa_max_address = 0xFFFFFFFF,
                         va_max_address = 0xFFFFFFFF, mmap = [], initialized = False\<rparr>\<rparr>"

text \<open>The same platform built without assertions, its non-secure buffer moved off the
  64 KiB granule.\<close>

definition misaligned_production_env :: env where
  "misaligned_production_env =
     example_env\<lparr>plat := example_platform\<lparr>ENABLE_ASSERTIONS := False,
                                           PLAT_SP_IMAGE_NS_BUF_BASE := 0xFF600800\<rparr>\<rparr>"

section \<open>Memory: addresses, copies, loads and stores\<close>

subsection \<open>Addresses\<close>

lemma of_nat_eq_64: "a < 2 ^ 64 \<Longrightarrow> b < 2 ^ 64 \<Longrightarrow> ((of_nat a :: 64 word) = of_nat b) = (a = b)"
  by (simp add: word_of_nat_eq_iff take_bit_nat_eq_self)

lemma addr_offset_eq:
  "a < 2 ^ 64 \<Longrightarrow> b < 2 ^ 64 \<Longrightarrow> ((p :: 64 word) + of_nat a = p + of_nat b) = (a = b)"
  by (simp add: of_nat_eq_64)

lemma unat_addr_offset: "unat (p :: 64 word) + i < 2 ^ 64 \<Longrightarrow> unat (p + of_nat i) = unat p + i"
  by (simp add: unat_word_ariths unat_of_nat)

lemma separate_neq:
  assumes "separate a la b lb" "i < la" "j < lb"
  shows "a + of_nat i \<noteq> b + of_nat j"
proof
  assume e: "a + of_nat i = b + of_nat j"
  have "unat (a + of_nat i) = unat a + i"
    using assms by (intro unat_addr_offset) (simp add: separate_def)
  moreover have "unat (b + of_nat j) = unat b + j"
    using assms by (intro unat_addr_offset) (simp add: separate_def)
  ultimately have "unat a + i = unat b + j"
    using e by simp
  then show False
    using assms by (auto simp: separate_def)
qed

subsection \<open>memcpy\<close>

lemma memcpy_other:
  "(\<And>k. k < n \<Longrightarrow> x \<noteq> d + of_nat k) \<Longrightarrow> memcpy m d s n x = m x"
proof (induction n arbitrary: m d s)
  case 0
  then show ?case by simp
next
  case (Suc n)
  have "memcpy (m(d := m s)) (d + 1) (s + 1) n x = (m(d := m s)) x"
  proof (rule Suc.IH)
    fix k assume "k < n"
    then show "x \<noteq> d + 1 + of_nat k"
      using Suc.prems [of "Suc k"] by (simp add: add.assoc)
  qed
  moreover have "x \<noteq> d"
    using Suc.prems [of 0] by simp
  ultimately show ?case by simp
qed

lemma memcpy_copied:
  assumes "n \<le> 2 ^ 64"
    and "\<And>i j. i < n \<Longrightarrow> j < n \<Longrightarrow> s + of_nat i \<noteq> d + of_nat j"
    and "k < n"
  shows "memcpy m d s n (d + of_nat k) = m (s + of_nat k)"
  using assms
proof (induction n arbitrary: m d s k)
  case 0
  then show ?case by simp
next
  case (Suc n)
  show ?case
  proof (cases k)
    case 0
    have "memcpy (m(d := m s)) (d + 1) (s + 1) n d = (m(d := m s)) d"
    proof (rule memcpy_other)
      fix j assume "j < n"
      then have "d + of_nat 0 \<noteq> d + of_nat (Suc j)"
        using Suc.prems(1) by (subst addr_offset_eq) auto
      then show "d \<noteq> d + 1 + of_nat j"
        by (simp add: add.assoc)
    qed
    then show ?thesis using 0 by simp
  next
    case (Suc k')
    have "memcpy (m(d := m s)) (d + 1) (s + 1) n (d + 1 + of_nat k') = (m(d := m s)) (s + 1 + of_nat k')"
    proof (rule Suc.IH)
      show "n \<le> 2 ^ 64" using Suc.prems(1) by simp
      show "k' < n" using Suc.prems(3) Suc by simp
      fix i j assume "i < n" "j < n"
      then show "s + 1 + of_nat i \<noteq> d + 1 + of_nat j"
        using Suc.prems(2) [of "Suc i" "Suc j"] by (simp add: add.assoc)
    qed
    moreover have "s + 1 + of_nat k' \<noteq> d"
      using Suc.prems(2) [of "Suc k'" 0] Suc.prems(3) Suc by (simp add: add.assoc)
    ultimately show ?thesis
      using Suc by (simp add: add.assoc)
  qed
qed

subsection \<open>Loads and stores\<close>

lemma bit_byte_of:
  "bit (push_bit k (ucast (ucast (drop_bit k v) :: 8 word)) :: 'a::len word) n
     = (k \<le> n \<and> n < k + 8 \<and> bit (v :: 'a word) n)"
  by (cases "k \<le> n") (auto simp add: bit_simps dest: bit_imp_le_length)

lemma bit_byte0_of:
  "bit (ucast (ucast v :: 8 word) :: 'a::len word) n = (n < 8 \<and> bit (v :: 'a word) n)"
  by (auto simp add: bit_simps dest: bit_imp_le_length)

lemma le32: "ucast (ucast v :: 8 word) OR push_bit 8 (ucast (ucast (drop_bit 8 v) :: 8 word)) OR
   push_bit 16 (ucast (ucast (drop_bit 16 v) :: 8 word)) OR push_bit 24 (ucast (ucast (drop_bit 24 v) :: 8 word)) = (v :: 32 word)"
proof (rule bit_word_eqI)
  fix n assume "n < LENGTH(32)"
  then have "n < 8 \<or> (8 \<le> n \<and> n < 16) \<or> (16 \<le> n \<and> n < 24) \<or> (24 \<le> n \<and> n < 32)"
    by auto
  then show "bit (ucast (ucast v :: 8 word) OR push_bit 8 (ucast (ucast (drop_bit 8 v) :: 8 word)) OR
   push_bit 16 (ucast (ucast (drop_bit 16 v) :: 8 word)) OR push_bit 24 (ucast (ucast (drop_bit 24 v) :: 8 word)) :: 32 word) n = bit v n"
    unfolding bit_or_iff bit_byte_of bit_byte0_of by auto
qed

lemma le64: "ucast (ucast v :: 8 word) OR push_bit 8 (ucast (ucast (drop_bit 8 v) :: 8 word)) OR
   push_bit 16 (ucast (ucast (drop_bit 16 v) :: 8 word)) OR push_bit 24 (ucast (ucast (drop_bit 24 v) :: 8 word)) OR
   push_bit 32 (ucast (ucast (drop_bit 32 v) :: 8 word)) OR push_bit 40 (ucast (ucast (drop_bit 40 v) :: 8 word)) OR
   push_bit 48 (ucast (ucast (drop_bit 48 v) :: 8 word)) OR push_bit 56 (ucast (ucast (drop_bit 56 v) :: 8 word))
    = (v :: 64 word)"
proof (rule bit_word_eqI)
  fix n assume "n < LENGTH(64)"
  then have "n < 8 \<or> (8 \<le> n \<and> n < 16) \<or> (16 \<le> n \<and> n < 24) \<or> (24 \<le> n \<and> n < 32)
     \<or> (32 \<le> n \<and> n < 40) \<or> (40 \<le> n \<and> n < 48) \<or> (48 \<le> n \<and> n < 56) \<or> (56 \<le> n \<and> n < 64)"
    by auto
  then show "bit (ucast (ucast v :: 8 word) OR push_bit 8 (ucast (ucast (drop_bit 8 v) :: 8 word)) OR
   push_bit 16 (ucast (ucast (drop_bit 16 v) :: 8 word)) OR push_bit 24 (ucast (ucast (drop_bit 24 v) :: 8 word)) OR
   push_bit 32 (ucast (ucast (drop_bit 32 v) :: 8 word)) OR push_bit 40 (ucast (ucast (drop_bit 40 v) :: 8 word)) OR
   push_bit 48 (ucast (ucast (drop_bit 48 v) :: 8 word)) OR push_bit 56 (ucast (ucast (drop_bit 56 v) :: 8 word)) :: 64 word) n = bit v n"
    unfolding bit_or_iff bit_byte_of bit_byte0_of by auto
qed

lemma load32_store32: "load32 (store32 m a v) a = v"
  by (simp add: load32_def store32_def le32)

lemma load64_store64: "load64 (store64 m a v) a = v"
  by (simp add: load64_def store64_def le64)

lemma load32_cong:
  "(\<And>j. j < 4 \<Longrightarrow> m' (a + of_nat j) = m (b + of_nat j)) \<Longrightarrow> load32 m' a = load32 m b"
proof -
  assume h: "\<And>j. j < 4 \<Longrightarrow> m' (a + of_nat j) = m (b + of_nat j)"
  show ?thesis
    using h [of 0] h [of 1] h [of 2] h [of 3] by (simp add: load32_def)
qed

lemma load64_cong:
  "(\<And>j. j < 8 \<Longrightarrow> m' (a + of_nat j) = m (b + of_nat j)) \<Longrightarrow> load64 m' a = load64 m b"
proof -
  assume h: "\<And>j. j < 8 \<Longrightarrow> m' (a + of_nat j) = m (b + of_nat j)"
  show ?thesis
    using h [of 0] h [of 1] h [of 2] h [of 3] h [of 4] h [of 5] h [of 6] h [of 7]
    by (simp add: load64_def)
qed

lemma store32_other:
  "(\<And>j. j < 4 \<Longrightarrow> x \<noteq> a + of_nat j) \<Longrightarrow> store32 m a v x = m x"
proof -
  assume h: "\<And>j. j < 4 \<Longrightarrow> x \<noteq> a + of_nat j"
  show ?thesis
    using h [of 0] h [of 1] h [of 2] h [of 3] by (simp add: store32_def)
qed

lemma store64_other:
  "(\<And>j. j < 8 \<Longrightarrow> x \<noteq> a + of_nat j) \<Longrightarrow> store64 m a v x = m x"
proof -
  assume h: "\<And>j. j < 8 \<Longrightarrow> x \<noteq> a + of_nat j"
  show ?thesis
    using h [of 0] h [of 1] h [of 2] h [of 3] h [of 4] h [of 5] h [of 6] h [of 7]
    by (simp add: store64_def)
qed

lemma at_off_0: "at_off a 0 = a"
  by (simp add: at_off_def)

lemma at_off_at_off: "at_off (at_off a k) j = at_off a (k + j)"
  by (simp add: at_off_def add.assoc)

lemma at_off_plus: "at_off a k + of_nat j = at_off a (k + j)"
  by (simp add: at_off_def add.assoc)

lemma at_off_eq: "k < 2 ^ 64 \<Longrightarrow> k' < 2 ^ 64 \<Longrightarrow> (at_off a k = at_off a k') = (k = k')"
  by (simp add: at_off_def of_nat_eq_64)

lemma separate_at_off:
  "separate a la b lb \<Longrightarrow> i < la \<Longrightarrow> j < lb \<Longrightarrow> at_off a i \<noteq> at_off b j"
  by (simp add: at_off_def separate_neq)

lemma memcpy_at_other:
  "(\<And>k. k < n \<Longrightarrow> x \<noteq> at_off d k) \<Longrightarrow> memcpy m d s n x = m x"
  by (rule memcpy_other) (simp add: at_off_def)

lemma memcpy_at_copied:
  "n \<le> 2 ^ 64 \<Longrightarrow> (\<And>i j. i < n \<Longrightarrow> j < n \<Longrightarrow> at_off s i \<noteq> at_off d j) \<Longrightarrow> k < n \<Longrightarrow>
   memcpy m d s n (at_off d k) = m (at_off s k)"
  unfolding at_off_def by (rule memcpy_copied)

lemma load32_at_cong:
  assumes "\<And>j. j < 4 \<Longrightarrow> m' (at_off a (c + j)) = m (at_off b (d + j))"
  shows "load32 m' (at_off a c) = load32 m (at_off b d)"
  by (rule load32_cong) (simp add: at_off_plus assms)

lemma load64_at_cong:
  assumes "\<And>j. j < 8 \<Longrightarrow> m' (at_off a (c + j)) = m (at_off b (d + j))"
  shows "load64 m' (at_off a c) = load64 m (at_off b d)"
  by (rule load64_cong) (simp add: at_off_plus assms)

lemma store32_at_other:
  assumes "\<And>j. j < 4 \<Longrightarrow> x \<noteq> at_off a (c + j)"
  shows "store32 m (at_off a c) v x = m x"
  by (rule store32_other) (simp add: at_off_plus assms)

lemma store64_at_other:
  assumes "\<And>j. j < 8 \<Longrightarrow> x \<noteq> at_off a (c + j)"
  shows "store64 m (at_off a c) v x = m x"
  by (rule store64_other) (simp add: at_off_plus assms)

lemma store32_at_off_other:
  "x < c \<or> c + 4 \<le> x \<Longrightarrow> x < 2 ^ 64 \<Longrightarrow> c + 4 \<le> 2 ^ 64 \<Longrightarrow>
   store32 m (at_off a c) v (at_off a x) = m (at_off a x)"
  by (rule store32_at_other) (auto simp add: at_off_eq)

lemma store64_at_off_other:
  "x < c \<or> c + 8 \<le> x \<Longrightarrow> x < 2 ^ 64 \<Longrightarrow> c + 8 \<le> 2 ^ 64 \<Longrightarrow>
   store64 m (at_off a c) v (at_off a x) = m (at_off a x)"
  by (rule store64_at_other) (auto simp add: at_off_eq)

subsection \<open>The annotation of one record\<close>

lemma unat_ucast_32_64: "unat (ucast (w :: 32 word) :: 64 word) = unat w"
proof -
  have "unat w < 2 ^ 32" using unsigned_less [of w] by simp
  then have "unat w < 2 ^ 64" by simp
  then show ?thesis
    by (simp add: unsigned_ucast_eq take_bit_nat_eq_self)
qed

lemma ucast_of_nat_32_64: "(ucast (of_nat i :: 32 word) :: 64 word) = of_nat i" if "i < 2 ^ 32"
  using that by (simp add: word_unat_eq_iff unat_ucast_32_64 unat_of_nat)

lemma unat_array_bytes: "unat (ucast (w :: 32 word) * sizeof_mp_info) = 16 * unat w"
proof -
  have "unat w < 2 ^ 32" using unsigned_less [of w] by simp
  then have "unat w * 16 < 2 ^ 64" by simp
  then show ?thesis
    by (simp add: sizeof_mp_info_def unat_word_ariths unat_ucast_32_64)
qed

lemma mp_info_elem_of_nat: "i < 2 ^ 32 \<Longrightarrow> mp_info_elem a (of_nat i) = at_off a (16 * i)"
  by (simp add: mp_info_elem_def ucast_of_nat_32_64 sizeof_mp_info_def mult.commute at_off_def)

lemma field_addrs:
  "at_off a k + offsetof_mpidr = at_off a k"
  "at_off a k + offsetof_linear_id = at_off a (k + 8)"
  "at_off a k + offsetof_flags = at_off a (k + 12)"
  by (simp_all add: at_off_def offsetof_mpidr_def offsetof_linear_id_def offsetof_flags_def add.assoc)

lemma record_bound: "i < 2 ^ 32 \<Longrightarrow> c \<le> 16 \<Longrightarrow> 16 * i + c < (2 :: nat) ^ 64"
proof -
  assume "i < 2 ^ 32" "c \<le> 16"
  then have "16 * i + c \<le> 16 * 2 ^ 32" by simp
  also have "\<dots> < (2 :: nat) ^ 64" by simp
  finally show ?thesis .
qed

lemma annotate_record_at:
  assumes "i < 2 ^ 32"
  shows "annotate_record L p a (of_nat i) m =
     (let lid = plat_core_pos_by_mpidr p (load64 m (at_off a (16 * i)));
          m1 = store32 m (at_off a (16 * i + 8)) lid
      in if plat_my_core_pos p = lid
         then store32 m1 (at_off a (16 * i + 12))
                (load32 m (at_off a (16 * i + 12)) OR MP_INFO_FLAG_PRIMARY_CPU L)
         else m1)"
proof -
  have "load32 (store32 m (at_off a (16 * i + 8)) v) (at_off a (16 * i + 12))
          = load32 m (at_off a (16 * i + 12))" for v
  proof (rule load32_at_cong)
    fix j :: nat assume "j < 4"
    then show "store32 m (at_off a (16 * i + 8)) v (at_off a (16 * i + 12 + j))
                 = m (at_off a (16 * i + 12 + j))"
      using record_bound [OF assms, of "12 + j"] record_bound [OF assms, of 12]
      by (intro store32_at_off_other) auto
  qed
  then show ?thesis
    using assms
    by (simp add: annotate_record_def Let_def mp_info_elem_of_nat field_addrs load32_store32)
qed

lemma annotate_record_other:
  assumes "i < 2 ^ 32" and "\<And>c. 8 \<le> c \<Longrightarrow> c < 16 \<Longrightarrow> x \<noteq> at_off a (16 * i + c)"
  shows "annotate_record L p a (of_nat i) m x = m x"
proof -
  have 1: "store32 m' (at_off a (16 * i + 8)) v x = m' x" for m' v
    using assms(2) by (intro store32_at_other) (simp add: add.assoc)
  have 2: "store32 m' (at_off a (16 * i + 12)) v x = m' x" for m' v
    using assms(2) by (intro store32_at_other) (simp add: add.assoc)
  show ?thesis
    using assms(1) by (simp add: annotate_record_at Let_def 1 2)
qed

lemma annotate_record_read:
  assumes "i < 2 ^ 32"
  shows "read_mp_info (annotate_record L p a (of_nat i) m) (at_off a (16 * i))
           = annotated L p (read_mp_info m (at_off a (16 * i)))"
proof -
  let ?r = "16 * i"
  have b: "?r + c < 2 ^ 64" if "c \<le> 16" for c
    using record_bound [OF assms that] .
  have mp1: "load64 (store32 m' (at_off a (?r + 8)) v) (at_off a ?r) = load64 m' (at_off a ?r)" for m' v
  proof (rule load64_at_cong)
    fix j :: nat assume "j < 8"
    then show "store32 m' (at_off a (?r + 8)) v (at_off a (?r + j)) = m' (at_off a (?r + j))"
      using b [of j] b [of 12] by (intro store32_at_off_other) auto
  qed
  have mp2: "load64 (store32 m' (at_off a (?r + 12)) v) (at_off a ?r) = load64 m' (at_off a ?r)" for m' v
  proof (rule load64_at_cong)
    fix j :: nat assume "j < 8"
    then show "store32 m' (at_off a (?r + 12)) v (at_off a (?r + j)) = m' (at_off a (?r + j))"
      using b [of j] b [of 16] by (intro store32_at_off_other) auto
  qed
  have lid: "load32 (store32 m' (at_off a (?r + 12)) v) (at_off a (?r + 8)) = load32 m' (at_off a (?r + 8))" for m' v
  proof (rule load32_at_cong)
    fix j :: nat assume "j < 4"
    then show "store32 m' (at_off a (?r + 12)) v (at_off a (?r + 8 + j)) = m' (at_off a (?r + 8 + j))"
      using b [of "8 + j"] b [of 16] by (intro store32_at_off_other) auto
  qed
  have fl: "load32 (store32 m' (at_off a (?r + 8)) v) (at_off a (?r + 12)) = load32 m' (at_off a (?r + 12))" for m' v
  proof (rule load32_at_cong)
    fix j :: nat assume "j < 4"
    then show "store32 m' (at_off a (?r + 8)) v (at_off a (?r + 12 + j)) = m' (at_off a (?r + 12 + j))"
      using b [of "12 + j"] b [of 12] by (intro store32_at_off_other) auto
  qed
  show ?thesis
    using assms
    by (simp add: read_mp_info_def annotated_def annotate_record_at Let_def field_addrs
        mp1 mp2 lid fl load32_store32)
qed


subsection \<open>The annotation pass\<close>

lemma read_mp_info_cong:
  assumes "\<And>c. c < 16 \<Longrightarrow> m' (at_off a (k + c)) = m (at_off b (l + c))"
  shows "read_mp_info m' (at_off a k) = read_mp_info m (at_off b l)"
proof -
  have "load64 m' (at_off a k) = load64 m (at_off b l)"
    by (rule load64_at_cong) (simp add: assms)
  moreover have "load32 m' (at_off a (k + 8)) = load32 m (at_off b (l + 8))"
    by (rule load32_at_cong) (simp add: assms add.assoc)
  moreover have "load32 m' (at_off a (k + 12)) = load32 m (at_off b (l + 12))"
    by (rule load32_at_cong) (simp add: assms add.assoc)
  ultimately show ?thesis
    by (simp add: read_mp_info_def field_addrs)
qed

lemma annotate_fold_other:
  assumes "\<And>k. k \<in> set ks \<Longrightarrow> k < 2 ^ 32"
    and "\<And>k c. k \<in> set ks \<Longrightarrow> 8 \<le> c \<Longrightarrow> c < 16 \<Longrightarrow> x \<noteq> at_off a (16 * k + c)"
  shows "fold (\<lambda>k. annotate_record L p a (of_nat k)) ks m x = m x"
  using assms
proof (induction ks arbitrary: m)
  case Nil
  then show ?case by simp
next
  case (Cons k ks)
  have "fold (\<lambda>k. annotate_record L p a (of_nat k)) ks (annotate_record L p a (of_nat k) m) x
          = annotate_record L p a (of_nat k) m x"
    using Cons.prems by (intro Cons.IH) auto
  also have "\<dots> = m x"
    using Cons.prems by (intro annotate_record_other) auto
  finally show ?case by simp
qed

lemma record_bytes_neq:
  assumes "k < 2 ^ 32" "k' < 2 ^ 32" "k \<noteq> k'" "c < 16" "c' < 16"
  shows "at_off a (16 * k + c) \<noteq> at_off a (16 * k' + c')"
proof -
  have "16 * k + c < 2 ^ 64" "16 * k' + c' < 2 ^ 64"
    using assms record_bound [of k c] record_bound [of k' c'] by simp_all
  moreover have "16 * k + c \<noteq> 16 * k' + c'"
    using assms by arith
  ultimately show ?thesis
    by (simp add: at_off_eq)
qed

lemma annotate_fold_read:
  assumes "n \<le> 2 ^ 32" "k < n"
  shows "read_mp_info (fold (\<lambda>k. annotate_record L p a (of_nat k)) [0..<n] m) (at_off a (16 * k))
           = annotated L p (read_mp_info m (at_off a (16 * k)))"
proof -
  let ?f = "\<lambda>k. annotate_record L p a (of_nat k)"
  have k32: "k < 2 ^ 32" using assms by simp
  have "[0..<n] = [0..<k] @ [k..<n]"
    using assms(2) upt_add_eq_append [of 0 k "n - k"] by simp
  moreover have "[k..<n] = k # [Suc k..<n]"
    using assms(2) by (simp add: upt_conv_Cons)
  ultimately have split: "[0..<n] = [0..<k] @ k # [Suc k..<n]"
    by simp
  define m1 where "m1 = fold ?f [0..<k] m"
  define m2 where "m2 = ?f k m1"
  have res: "fold ?f [0..<n] m = fold ?f [Suc k..<n] m2"
    by (simp add: split m1_def m2_def)
  have "read_mp_info (fold ?f [Suc k..<n] m2) (at_off a (16 * k)) = read_mp_info m2 (at_off a (16 * k))"
  proof (rule read_mp_info_cong)
    fix c :: nat assume c: "c < 16"
    show "fold ?f [Suc k..<n] m2 (at_off a (16 * k + c)) = m2 (at_off a (16 * k + c))"
    proof (rule annotate_fold_other)
      fix k' assume "k' \<in> set [Suc k..<n]"
      then show "k' < 2 ^ 32" using assms(1) by simp
    next
      fix k' c' :: nat assume "k' \<in> set [Suc k..<n]" "8 \<le> c'" "c' < 16"
      then show "at_off a (16 * k + c) \<noteq> at_off a (16 * k' + c')"
        using assms(1) k32 c by (intro record_bytes_neq) auto
    qed
  qed
  also have "\<dots> = annotated L p (read_mp_info m1 (at_off a (16 * k)))"
    unfolding m2_def by (rule annotate_record_read [OF k32])
  also have "read_mp_info m1 (at_off a (16 * k)) = read_mp_info m (at_off a (16 * k))"
  proof (rule read_mp_info_cong)
    fix c :: nat assume c: "c < 16"
    show "m1 (at_off a (16 * k + c)) = m (at_off a (16 * k + c))"
      unfolding m1_def
    proof (rule annotate_fold_other)
      fix k' assume "k' \<in> set [0..<k]"
      then show "k' < 2 ^ 32" using k32 by simp
    next
      fix k' c' :: nat assume "k' \<in> set [0..<k]" "8 \<le> c'" "c' < 16"
      then show "at_off a (16 * k + c) \<noteq> at_off a (16 * k' + c')"
        using k32 c by (intro record_bytes_neq) auto
    qed
  qed
  finally show ?thesis
    by (simp add: res)
qed

lemma of_nat_less_32: "i < 2 ^ 32 \<Longrightarrow> ((of_nat i :: 32 word) < w) = (i < unat w)"
  by (simp add: word_less_nat_alt unat_of_nat)

lemma annotate_loop_fold:
  assumes "n = unat (load32 m (at_off bi (offsetof_num_cpus L)))"
    and "\<And>k c j. k < n \<Longrightarrow> 8 \<le> c \<Longrightarrow> c < 16 \<Longrightarrow> j < 4 \<Longrightarrow>
           at_off bi (offsetof_num_cpus L + j) \<noteq> at_off a (16 * k + c)"
    and "i \<le> n"
  shows "annotate_loop L p bi a (of_nat i) m = fold (\<lambda>k. annotate_record L p a (of_nat k)) [i..<n] m"
  using assms
proof (induction "n - i" arbitrary: i m)
  case 0
  then have "i = n" by simp
  then have "\<not> (of_nat i :: 32 word) < load32 m (bi + of_nat (offsetof_num_cpus L))"
    using 0 by (simp add: at_off_def word_less_nat_alt unat_of_nat)
  then show ?case
    using \<open>i = n\<close> by (subst annotate_loop.simps) simp
next
  case (Suc d)
  have n32: "n < 2 ^ 32"
    using Suc.prems(1) unsigned_less [of "load32 m (at_off bi (offsetof_num_cpus L))"] by simp
  have i: "i < n" using Suc.hyps(2) by simp
  then have i32: "i < 2 ^ 32" using n32 by simp
  have c: "(of_nat i :: 32 word) < load32 m (bi + of_nat (offsetof_num_cpus L))"
    using i i32 Suc.prems(1) by (simp add: of_nat_less_32 at_off_def)
  let ?m' = "annotate_record L p a (of_nat i) m"
  have keep: "load32 ?m' (at_off bi (offsetof_num_cpus L)) = load32 m (at_off bi (offsetof_num_cpus L))"
  proof (rule load32_at_cong)
    fix j :: nat assume "j < 4"
    then show "?m' (at_off bi (offsetof_num_cpus L + j)) = m (at_off bi (offsetof_num_cpus L + j))"
      using Suc.prems(2) i i32 by (intro annotate_record_other) auto
  qed
  have "annotate_loop L p bi a (of_nat (Suc i)) ?m'
          = fold (\<lambda>k. annotate_record L p a (of_nat k)) [Suc i..<n] ?m'"
  proof (rule Suc.hyps(1))
    show "d = n - Suc i" using Suc.hyps(2) by simp
    show "n = unat (load32 ?m' (at_off bi (offsetof_num_cpus L)))"
      using keep Suc.prems(1) by simp
    show "Suc i \<le> n" using i by simp
    show "\<And>k c j. k < n \<Longrightarrow> 8 \<le> c \<Longrightarrow> c < 16 \<Longrightarrow> j < 4 \<Longrightarrow>
           at_off bi (offsetof_num_cpus L + j) \<noteq> at_off a (16 * k + c)"
      by (rule Suc.prems(2))
  qed
  moreover have "annotate_loop L p bi a (of_nat i) m = annotate_loop L p bi a (of_nat (Suc i)) ?m'"
    using c by (subst annotate_loop.simps) (simp add: add.commute)
  moreover have "[i..<n] = i # [Suc i..<n]"
    using i by (simp add: upt_conv_Cons)
  ultimately show ?case by simp
qed


subsection \<open>The assertions of the Marshaller\<close>

lemma assert_fails_True: "assert_fails p True = False"
  by (simp add: assert_fails_def)

lemma unat_buf_end:
  "unat (b :: 64 word) + unat s < 2 ^ 64 \<Longrightarrow> unat (b + s) = unat b + unat s"
  using unat_add_lem [of b s] by simp

lemma unat_neg_64: "s \<noteq> 0 \<Longrightarrow> unat (- (s :: 64 word)) = 2 ^ 64 - unat s"
  using unat_sub_if' [of 0 s] by (simp add: unat_eq_0)

lemma boot_info_fits_iff:
  assumes "unat (b :: 64 word) + unat (s :: 64 word) < 2 ^ 64" "unat b + hs < 2 ^ 64"
  shows "(b + of_nat hs \<le> b + s) = (hs \<le> unat s)"
  using assms by (simp add: word_le_nat_alt unat_buf_end unat_addr_offset)

lemma buf_end_no_overflow:
  assumes "unat (b :: 64 word) + unat (s :: 64 word) < 2 ^ 64" "s \<noteq> 0"
  shows "b \<le> (- 1) - s + 1"
proof -
  have "(- 1) - s + 1 = - s" by simp
  then show ?thesis
    using assms by (simp add: word_le_nat_alt unat_neg_64)
qed

lemma mp_info_fits_iff:
  assumes "unat (b :: 64 word) + unat (s :: 64 word) < 2 ^ 64" "unat b + hs < 2 ^ 64"
    and "16 * unat (n :: 32 word) \<le> unat b + unat s"
  shows "(b + of_nat hs \<le> b + s - ucast n * sizeof_mp_info) = (hs + 16 * unat n \<le> unat s)"
proof -
  have "ucast n * sizeof_mp_info \<le> b + s"
    using assms by (simp add: word_le_nat_alt unat_buf_end unat_array_bytes)
  then have "unat (b + s - ucast n * sizeof_mp_info) = unat b + unat s - 16 * unat n"
    using assms by (simp add: unat_sub unat_buf_end unat_array_bytes)
  then show ?thesis
    using assms by (auto simp add: word_le_nat_alt unat_addr_offset)
qed


subsection \<open>The copy of the Boot-Info Record and the patch of its pointer\<close>

lemma boot_info_copied_byte:
  assumes "separate (plat_get_secure_partition_boot_info p) (sizeof_boot_info L)
             (PLAT_SPM_BUF_BASE p) s"
    and "sizeof_boot_info L \<le> s" "k < sizeof_boot_info L"
  shows "boot_info_copied L p m (at_off (PLAT_SPM_BUF_BASE p) k)
           = m (at_off (plat_get_secure_partition_boot_info p) k)"
  unfolding boot_info_copied_def
proof (rule memcpy_at_copied)
  show "sizeof_boot_info L \<le> 2 ^ 64"
    using assms(1) by (simp add: separate_def)
  show "k < sizeof_boot_info L" by (rule assms(3))
  fix i j assume "i < sizeof_boot_info L" "j < sizeof_boot_info L"
  then show "at_off (plat_get_secure_partition_boot_info p) i \<noteq> at_off (PLAT_SPM_BUF_BASE p) j"
    using assms(1,2) by (intro separate_at_off [OF assms(1)]) auto
qed

lemma boot_info_copied_other:
  "(\<And>k. k < sizeof_boot_info L \<Longrightarrow> x \<noteq> at_off (PLAT_SPM_BUF_BASE p) k) \<Longrightarrow>
   boot_info_copied L p m x = m x"
  unfolding boot_info_copied_def by (rule memcpy_at_other)

lemma boot_info_patched_other:
  "(\<And>j. j < 8 \<Longrightarrow> x \<noteq> at_off (PLAT_SPM_BUF_BASE p) (offsetof_mp_info L + j)) \<Longrightarrow>
   boot_info_patched L p m x = boot_info_copied L p m x"
  unfolding boot_info_patched_def at_off_def [symmetric] by (rule store64_at_other)

lemma boot_info_patched_pointer:
  "load64 (boot_info_patched L p m) (PLAT_SPM_BUF_BASE p + of_nat (offsetof_mp_info L))
     = PLAT_SPM_BUF_BASE p + of_nat (sizeof_boot_info L)"
  by (simp add: boot_info_patched_def load64_store64)

text \<open>Bytes outside the buffer's header area are as before the copy and the patch.\<close>

lemma boot_info_patched_outside:
  assumes "layout_ok L" "\<And>k. k < sizeof_boot_info L \<Longrightarrow> x \<noteq> at_off (PLAT_SPM_BUF_BASE p) k"
  shows "boot_info_patched L p m x = m x"
proof -
  have "boot_info_patched L p m x = boot_info_copied L p m x"
    using assms by (intro boot_info_patched_other) (simp add: layout_ok_def)
  then show ?thesis
    using assms(2) by (simp add: boot_info_copied_other)
qed

lemma separate_outside:
  assumes "separate a la b lb" "i < la" "hs \<le> lb" "k < hs"
  shows "at_off a i \<noteq> at_off b k"
  using assms by (intro separate_at_off [OF assms(1)]) auto

lemma copied_mp_info:
  assumes "layout_ok L"
    and "separate (plat_get_secure_partition_boot_info p) (sizeof_boot_info L)
             (PLAT_SPM_BUF_BASE p) s"
    and "sizeof_boot_info L \<le> s"
  shows "load64 (boot_info_copied L p m) (PLAT_SPM_BUF_BASE p + of_nat (offsetof_mp_info L))
           = boot_mp_info L p m"
  unfolding boot_mp_info_def at_off_def [symmetric]
proof (rule load64_at_cong)
  fix j :: nat assume "j < 8"
  then show "boot_info_copied L p m (at_off (PLAT_SPM_BUF_BASE p) (offsetof_mp_info L + j))
               = m (at_off (plat_get_secure_partition_boot_info p) (offsetof_mp_info L + j))"
    using assms by (intro boot_info_copied_byte [where s = s]) (auto simp: layout_ok_def)
qed

lemma patched_num_cpus:
  assumes "layout_ok L"
    and "separate (plat_get_secure_partition_boot_info p) (sizeof_boot_info L)
             (PLAT_SPM_BUF_BASE p) s"
    and "sizeof_boot_info L \<le> s"
  shows "boot_num_cpus L p (boot_info_patched L p m) = boot_num_cpus L p m"
  unfolding boot_num_cpus_def at_off_def [symmetric]
proof (rule load32_at_cong)
  fix j :: nat assume j: "j < 4"
  show "boot_info_patched L p m (at_off (plat_get_secure_partition_boot_info p) (offsetof_num_cpus L + j))
               = m (at_off (plat_get_secure_partition_boot_info p) (offsetof_num_cpus L + j))"
  proof (rule boot_info_patched_outside [OF assms(1)])
    fix k assume "k < sizeof_boot_info L"
    then show "at_off (plat_get_secure_partition_boot_info p) (offsetof_num_cpus L + j)
                 \<noteq> at_off (PLAT_SPM_BUF_BASE p) k"
      using assms j by (intro separate_outside [OF assms(2)]) (auto simp: layout_ok_def)
  qed
qed


subsection \<open>The Marshaller as a chain of assertions and stages\<close>

lemma marshal_boot_info_stages:
  "marshal_boot_info L p m =
     (if assert_fails p (PLAT_SPM_BUF_BASE p + of_nat (sizeof_boot_info L)
                          \<le> PLAT_SPM_BUF_BASE p + PLAT_SPM_BUF_SIZE p)
      then Inl (BOOT_INFO_FITS, m)
      else if assert_fails p (PLAT_SPM_BUF_BASE p \<le> (- 1) - PLAT_SPM_BUF_SIZE p + 1)
      then Inl (BUF_END_NO_OVERFLOW, m)
      else if assert_fails p (plat_get_secure_partition_boot_info p \<noteq> 0)
      then Inl (BOOT_INFO_NOT_NULL, m)
      else if assert_fails p
                (load64 (boot_info_copied L p m) (PLAT_SPM_BUF_BASE p + of_nat (offsetof_mp_info L)) \<noteq> 0)
      then Inl (MP_INFO_NOT_NULL, boot_info_copied L p m)
      else if assert_fails p (boot_num_cpus L p (boot_info_patched L p m) \<le> PLATFORM_CORE_COUNT p)
      then Inl (NUM_CPUS_IN_RANGE, boot_info_patched L p m)
      else if assert_fails p
                (PLAT_SPM_BUF_BASE p + of_nat (sizeof_boot_info L)
                   \<le> PLAT_SPM_BUF_BASE p + PLAT_SPM_BUF_SIZE p
                       - ucast (boot_num_cpus L p (boot_info_patched L p m)) * sizeof_mp_info)
      then Inl (MP_INFO_FITS, boot_info_patched L p m)
      else Inr (annotate_loop L p (plat_get_secure_partition_boot_info p)
                  (PLAT_SPM_BUF_BASE p + of_nat (sizeof_boot_info L)) 0
                  (memcpy (boot_info_patched L p m)
                     (PLAT_SPM_BUF_BASE p + of_nat (sizeof_boot_info L))
                     (load64 (boot_info_copied L p m)
                        (PLAT_SPM_BUF_BASE p + of_nat (offsetof_mp_info L)))
                     (16 * unat (boot_num_cpus L p (boot_info_patched L p m))))))"
  by (simp add: marshal_boot_info_def Let_def boot_info_copied_def boot_info_patched_def
      boot_num_cpus_def load64_store64 unat_array_bytes)

lemma marshal_pre_facts:
  assumes "marshal_pre L p m"
  shows "layout_ok L"
    and "plat_get_secure_partition_boot_info p \<noteq> 0"
    and "boot_mp_info L p m \<noteq> 0"
    and "boot_num_cpus L p m \<le> PLATFORM_CORE_COUNT p"
    and "unat (PLAT_SPM_BUF_BASE p) + unat (PLAT_SPM_BUF_SIZE p) < 2 ^ 64"
    and "sizeof_boot_info L + 16 * unat (boot_num_cpus L p m) \<le> unat (PLAT_SPM_BUF_SIZE p)"
    and "separate (plat_get_secure_partition_boot_info p) (sizeof_boot_info L)
           (PLAT_SPM_BUF_BASE p) (unat (PLAT_SPM_BUF_SIZE p))"
    and "sizeof_boot_info L \<le> unat (PLAT_SPM_BUF_SIZE p)"
    and "8 \<le> sizeof_boot_info L"
  using assms by (simp_all add: marshal_pre_def layout_ok_def)

lemma marshal_succeeds:
  assumes "marshal_pre L p m"
  shows "marshal_boot_info L p m =
           Inr (annotate_loop L p (plat_get_secure_partition_boot_info p)
                  (PLAT_SPM_BUF_BASE p + of_nat (sizeof_boot_info L)) 0
                  (memcpy (boot_info_patched L p m)
                     (PLAT_SPM_BUF_BASE p + of_nat (sizeof_boot_info L))
                     (boot_mp_info L p m) (16 * unat (boot_num_cpus L p m))))"
proof -
  note f = marshal_pre_facts [OF assms]
  have ptr: "load64 (boot_info_copied L p m) (PLAT_SPM_BUF_BASE p + of_nat (offsetof_mp_info L))
               = boot_mp_info L p m"
    by (rule copied_mp_info [OF f(1) f(7) f(8)])
  have num: "boot_num_cpus L p (boot_info_patched L p m) = boot_num_cpus L p m"
    by (rule patched_num_cpus [OF f(1) f(7) f(8)])
  have wrap: "unat (PLAT_SPM_BUF_BASE p) + sizeof_boot_info L < 2 ^ 64"
    using f(5) f(8) by simp
  have a1: "PLAT_SPM_BUF_BASE p + of_nat (sizeof_boot_info L)
              \<le> PLAT_SPM_BUF_BASE p + PLAT_SPM_BUF_SIZE p"
    using f(8) by (simp add: boot_info_fits_iff [OF f(5) wrap])
  have "PLAT_SPM_BUF_SIZE p \<noteq> 0"
    using f(8) f(9) by (auto simp: unat_eq_0)
  then have a2: "PLAT_SPM_BUF_BASE p \<le> (- 1) - PLAT_SPM_BUF_SIZE p + 1"
    by (rule buf_end_no_overflow [OF f(5)])
  have "16 * unat (boot_num_cpus L p m) \<le> unat (PLAT_SPM_BUF_BASE p) + unat (PLAT_SPM_BUF_SIZE p)"
    using f(6) by simp
  then have a6: "PLAT_SPM_BUF_BASE p + of_nat (sizeof_boot_info L)
              \<le> PLAT_SPM_BUF_BASE p + PLAT_SPM_BUF_SIZE p
                  - ucast (boot_num_cpus L p m) * sizeof_mp_info"
    using f(6) by (simp add: mp_info_fits_iff [OF f(5) wrap])
  show ?thesis
    unfolding marshal_boot_info_stages ptr num
    using a1 a2 a6 f(2) f(3) f(4) by (simp add: assert_fails_True)
qed


subsection \<open>The copy of the MP-Info array and the annotation pass\<close>

lemma num_cpus_bound: "unat (boot_num_cpus L p m) < 2 ^ 32"
  using unsigned_less [of "boot_num_cpus L p m"] by simp

lemma mp_info_copied_other:
  assumes "\<And>k. k < len \<Longrightarrow> x \<noteq> at_off (PLAT_SPM_BUF_BASE p) (sizeof_boot_info L + k)"
  shows "memcpy m' (PLAT_SPM_BUF_BASE p + of_nat (sizeof_boot_info L)) src len x = m' x"
  unfolding at_off_def [symmetric]
  by (rule memcpy_at_other) (simp add: at_off_at_off assms)

lemma mp_info_copied_num_cpus:
  assumes "marshal_pre L p m"
  shows "boot_num_cpus L p
           (memcpy (boot_info_patched L p m) (PLAT_SPM_BUF_BASE p + of_nat (sizeof_boot_info L))
              src (16 * unat (boot_num_cpus L p m)))
         = boot_num_cpus L p m"
proof -
  note f = marshal_pre_facts [OF assms]
  let ?m3 = "memcpy (boot_info_patched L p m) (PLAT_SPM_BUF_BASE p + of_nat (sizeof_boot_info L))
              src (16 * unat (boot_num_cpus L p m))"
  have "load32 ?m3 (at_off (plat_get_secure_partition_boot_info p) (offsetof_num_cpus L))
          = load32 (boot_info_patched L p m)
              (at_off (plat_get_secure_partition_boot_info p) (offsetof_num_cpus L))"
  proof (rule load32_at_cong)
    fix j :: nat assume j: "j < 4"
    show "?m3 (at_off (plat_get_secure_partition_boot_info p) (offsetof_num_cpus L + j))
            = boot_info_patched L p m
                (at_off (plat_get_secure_partition_boot_info p) (offsetof_num_cpus L + j))"
    proof (rule mp_info_copied_other)
      fix k assume "k < 16 * unat (boot_num_cpus L p m)"
      then show "at_off (plat_get_secure_partition_boot_info p) (offsetof_num_cpus L + j)
                   \<noteq> at_off (PLAT_SPM_BUF_BASE p) (sizeof_boot_info L + k)"
        using f(1) f(6) j by (intro separate_at_off [OF f(7)]) (auto simp: layout_ok_def)
    qed
  qed
  then have "boot_num_cpus L p ?m3 = boot_num_cpus L p (boot_info_patched L p m)"
    by (simp add: boot_num_cpus_def at_off_def)
  then show ?thesis
    by (simp add: patched_num_cpus [OF f(1) f(7) f(8)])
qed

lemma marshal_run:
  assumes "marshal_pre L p m"
  shows "marshal_boot_info L p m =
           Inr (fold (\<lambda>k. annotate_record L p (PLAT_SPM_BUF_BASE p + of_nat (sizeof_boot_info L))
                            (of_nat k))
                  [0..<unat (boot_num_cpus L p m)]
                  (memcpy (boot_info_patched L p m)
                     (PLAT_SPM_BUF_BASE p + of_nat (sizeof_boot_info L))
                     (boot_mp_info L p m) (16 * unat (boot_num_cpus L p m))))"
proof -
  note f = marshal_pre_facts [OF assms]
  let ?bi = "plat_get_secure_partition_boot_info p"
  let ?dst = "PLAT_SPM_BUF_BASE p + of_nat (sizeof_boot_info L)"
  let ?n = "unat (boot_num_cpus L p m)"
  let ?m3 = "memcpy (boot_info_patched L p m) ?dst (boot_mp_info L p m) (16 * ?n)"
  have "annotate_loop L p ?bi ?dst (of_nat 0) ?m3
          = fold (\<lambda>k. annotate_record L p ?dst (of_nat k)) [0..<?n] ?m3"
  proof (rule annotate_loop_fold)
    show "?n = unat (load32 ?m3 (at_off ?bi (offsetof_num_cpus L)))"
      using mp_info_copied_num_cpus [OF assms, of "boot_mp_info L p m"]
      by (simp add: boot_num_cpus_def at_off_def)
    show "0 \<le> ?n" by simp
    fix k c j :: nat assume "k < ?n" "8 \<le> c" "c < 16" "j < 4"
    then have "at_off ?bi (offsetof_num_cpus L + j)
                 \<noteq> at_off (PLAT_SPM_BUF_BASE p) (sizeof_boot_info L + (16 * k + c))"
      using f(1) f(6) by (intro separate_at_off [OF f(7)]) (auto simp: layout_ok_def)
    then show "at_off ?bi (offsetof_num_cpus L + j) \<noteq> at_off ?dst (16 * k + c)"
      by (simp add: at_off_def add.assoc)
  qed
  then show ?thesis
    by (simp add: marshal_succeeds [OF assms])
qed

text \<open>Outside the written part of the buffer the memory is as the Marshaller found it.\<close>

lemma marshal_frame:
  assumes "marshal_pre L p m" "marshal_boot_info L p m = Inr m'"
    and "\<And>k. k < sizeof_boot_info L + 16 * unat (boot_num_cpus L p m) \<Longrightarrow>
           x \<noteq> at_off (PLAT_SPM_BUF_BASE p) k"
  shows "m' x = m x"
proof -
  note f = marshal_pre_facts [OF assms(1)]
  let ?dst = "PLAT_SPM_BUF_BASE p + of_nat (sizeof_boot_info L)"
  let ?n = "unat (boot_num_cpus L p m)"
  let ?m3 = "memcpy (boot_info_patched L p m) ?dst (boot_mp_info L p m) (16 * ?n)"
  have m': "m' = fold (\<lambda>k. annotate_record L p ?dst (of_nat k)) [0..<?n] ?m3"
    using marshal_run [OF assms(1)] assms(2) by simp
  have "m' x = ?m3 x"
    unfolding m'
  proof (rule annotate_fold_other)
    fix k assume "k \<in> set [0..<?n]"
    then show "k < 2 ^ 32"
      using num_cpus_bound [of L p m] by simp
  next
    fix k c :: nat assume "k \<in> set [0..<?n]" "8 \<le> c" "c < 16"
    then have "x \<noteq> at_off (PLAT_SPM_BUF_BASE p) (sizeof_boot_info L + (16 * k + c))"
      by (intro assms(3)) auto
    then show "x \<noteq> at_off ?dst (16 * k + c)"
      by (simp add: at_off_def add.assoc)
  qed
  also have "\<dots> = boot_info_patched L p m x"
    by (rule mp_info_copied_other) (simp add: assms(3))
  also have "\<dots> = m x"
    by (rule boot_info_patched_outside [OF f(1)]) (simp add: assms(3))
  finally show ?thesis .
qed

text \<open>The pointer field of the buffer's record after the whole run.\<close>

lemma marshal_pointer:
  assumes "marshal_pre L p m" "marshal_boot_info L p m = Inr m'"
  shows "load64 m' (PLAT_SPM_BUF_BASE p + of_nat (offsetof_mp_info L))
           = PLAT_SPM_BUF_BASE p + of_nat (sizeof_boot_info L)"
proof -
  note f = marshal_pre_facts [OF assms(1)]
  let ?B = "PLAT_SPM_BUF_BASE p"
  let ?dst = "PLAT_SPM_BUF_BASE p + of_nat (sizeof_boot_info L)"
  let ?n = "unat (boot_num_cpus L p m)"
  let ?m3 = "memcpy (boot_info_patched L p m) ?dst (boot_mp_info L p m) (16 * ?n)"
  have m': "m' = fold (\<lambda>k. annotate_record L p ?dst (of_nat k)) [0..<?n] ?m3"
    using marshal_run [OF assms(1)] assms(2) by simp
  have size: "sizeof_boot_info L + 16 * ?n < 2 ^ 64"
    using f(5) f(6) by simp
  have field: "at_off ?B (offsetof_mp_info L + j) \<noteq> at_off ?B (sizeof_boot_info L + k)"
    if "j < 8" "k < 16 * ?n" for j k
    using that f(1) size by (subst at_off_eq) (auto simp: layout_ok_def)
  have "load64 m' (at_off ?B (offsetof_mp_info L))
          = load64 (boot_info_patched L p m) (at_off ?B (offsetof_mp_info L))"
  proof (rule load64_at_cong)
    fix j :: nat assume j: "j < 8"
    have "m' (at_off ?B (offsetof_mp_info L + j)) = ?m3 (at_off ?B (offsetof_mp_info L + j))"
      unfolding m'
    proof (rule annotate_fold_other)
      fix k assume "k \<in> set [0..<?n]"
      then show "k < 2 ^ 32"
        using num_cpus_bound [of L p m] by simp
    next
      fix k c :: nat assume "k \<in> set [0..<?n]" "8 \<le> c" "c < 16"
      then have "at_off ?B (offsetof_mp_info L + j) \<noteq> at_off ?B (sizeof_boot_info L + (16 * k + c))"
        using j by (intro field) auto
      then show "at_off ?B (offsetof_mp_info L + j) \<noteq> at_off ?dst (16 * k + c)"
        by (simp add: at_off_def add.assoc)
    qed
    also have "\<dots> = boot_info_patched L p m (at_off ?B (offsetof_mp_info L + j))"
      using j by (intro mp_info_copied_other field) auto
    finally show "m' (at_off ?B (offsetof_mp_info L + j))
                    = boot_info_patched L p m (at_off ?B (offsetof_mp_info L + j))" .
  qed
  then show ?thesis
    by (simp add: at_off_def boot_info_patched_pointer)
qed


text \<open>The bytes of the array copy are the bytes of the platform's array.\<close>

lemma mp_info_copied_byte:
  assumes "marshal_pre L p m" "array_outside_buffer L p m"
    and "k < 16 * unat (boot_num_cpus L p m)"
  shows "memcpy (boot_info_patched L p m) (PLAT_SPM_BUF_BASE p + of_nat (sizeof_boot_info L))
           (boot_mp_info L p m) (16 * unat (boot_num_cpus L p m))
           (at_off (PLAT_SPM_BUF_BASE p) (sizeof_boot_info L + k))
         = m (at_off (boot_mp_info L p m) k)"
proof -
  note f = marshal_pre_facts [OF assms(1)]
  let ?B = "PLAT_SPM_BUF_BASE p"
  let ?n = "unat (boot_num_cpus L p m)"
  have sep: "separate (boot_mp_info L p m) (16 * ?n) ?B (unat (PLAT_SPM_BUF_SIZE p))"
    using assms(2) by (simp add: array_outside_buffer_def)
  have "memcpy (boot_info_patched L p m) (at_off ?B (sizeof_boot_info L)) (boot_mp_info L p m)
          (16 * ?n) (at_off (at_off ?B (sizeof_boot_info L)) k)
        = boot_info_patched L p m (at_off (boot_mp_info L p m) k)"
  proof (rule memcpy_at_copied)
    show "16 * ?n \<le> 2 ^ 64"
      using sep by (simp add: separate_def)
    show "k < 16 * ?n" by (rule assms(3))
    fix i j assume "i < 16 * ?n" "j < 16 * ?n"
    then have "at_off (boot_mp_info L p m) i \<noteq> at_off ?B (sizeof_boot_info L + j)"
      using f(6) by (intro separate_at_off [OF sep]) auto
    then show "at_off (boot_mp_info L p m) i \<noteq> at_off (at_off ?B (sizeof_boot_info L)) j"
      by (simp add: at_off_at_off)
  qed
  also have "\<dots> = m (at_off (boot_mp_info L p m) k)"
  proof (rule boot_info_patched_outside [OF f(1)])
    fix k' assume "k' < sizeof_boot_info L"
    then show "at_off (boot_mp_info L p m) k \<noteq> at_off ?B k'"
      using assms(3) f(8) by (intro separate_at_off [OF sep]) auto
  qed
  finally show ?thesis
    by (simp add: at_off_def add.assoc)
qed

text \<open>The buffer's array after the run: the platform's records, each annotated.\<close>

lemma marshal_record:
  assumes "marshal_pre L p m" "array_outside_buffer L p m" "marshal_boot_info L p m = Inr m'"
    and "i < unat (boot_num_cpus L p m)"
  shows "read_mp_info m' (PLAT_SPM_BUF_BASE p + of_nat (sizeof_boot_info L) + of_nat (16 * i))
           = annotated L p (read_mp_info m (boot_mp_info L p m + of_nat (16 * i)))"
proof -
  let ?dst = "PLAT_SPM_BUF_BASE p + of_nat (sizeof_boot_info L)"
  let ?n = "unat (boot_num_cpus L p m)"
  let ?m3 = "memcpy (boot_info_patched L p m) ?dst (boot_mp_info L p m) (16 * ?n)"
  have m': "m' = fold (\<lambda>k. annotate_record L p ?dst (of_nat k)) [0..<?n] ?m3"
    using marshal_run [OF assms(1)] assms(3) by simp
  have n: "?n \<le> 2 ^ 32"
    using num_cpus_bound [of L p m] by simp
  have "read_mp_info m' (at_off ?dst (16 * i)) = annotated L p (read_mp_info ?m3 (at_off ?dst (16 * i)))"
    unfolding m' by (rule annotate_fold_read [OF n assms(4)])
  moreover have "read_mp_info ?m3 (at_off ?dst (16 * i))
                   = read_mp_info m (at_off (boot_mp_info L p m) (16 * i))"
  proof (rule read_mp_info_cong)
    fix c :: nat assume "c < 16"
    then have "16 * i + c < 16 * ?n"
      using assms(4) by simp
    then have "?m3 (at_off (PLAT_SPM_BUF_BASE p) (sizeof_boot_info L + (16 * i + c)))
                 = m (at_off (boot_mp_info L p m) (16 * i + c))"
      by (rule mp_info_copied_byte [OF assms(1) assms(2)])
    then show "?m3 (at_off ?dst (16 * i + c)) = m (at_off (boot_mp_info L p m) (16 * i + c))"
      by (simp add: at_off_def add.assoc)
  qed
  ultimately show ?thesis
    by (simp add: at_off_def)
qed

lemma marshal_array:
  assumes "marshal_pre L p m" "array_outside_buffer L p m" "marshal_boot_info L p m = Inr m'"
  shows "read_mp_array m' (PLAT_SPM_BUF_BASE p + of_nat (sizeof_boot_info L))
           (unat (boot_num_cpus L p m))
         = map (annotated L p)
             (read_mp_array m (boot_mp_info L p m) (unat (boot_num_cpus L p m)))"
  unfolding read_mp_array_def map_map
proof (rule map_cong [OF refl])
  fix i assume "i \<in> set [0..<unat (boot_num_cpus L p m)]"
  then have "i < unat (boot_num_cpus L p m)" by simp
  then show "read_mp_info m' (PLAT_SPM_BUF_BASE p + of_nat (sizeof_boot_info L) + of_nat (16 * i))
               = (annotated L p \<circ> (\<lambda>i. read_mp_info m (boot_mp_info L p m + of_nat (16 * i)))) i"
    using marshal_record [OF assms] by simp
qed

subsection \<open>The concrete platform\<close>

lemma upt_0_2: "[0..<2] = [0, Suc 0]"
  by (simp add: upt_conv_Cons)

lemma read_mp_array_2: "read_mp_array m a 2 = [read_mp_info m a, read_mp_info m (a + 16)]"
  by (simp add: read_mp_array_def upt_0_2)

lemma example_num_cpus: "boot_num_cpus example_layout p example_memory = 2"
  if "plat_get_secure_partition_boot_info p = 0x1000"
  using that by (simp add: boot_num_cpus_def example_layout_def example_memory_def load32_def)

lemma example_mp_info: "boot_mp_info example_layout p example_memory = 0x2000"
  if "plat_get_secure_partition_boot_info p = 0x1000"
  using that by (simp add: boot_mp_info_def example_layout_def example_memory_def load64_def)

lemma example_pre_gen:
  assumes "plat_get_secure_partition_boot_info p = 0x1000" "PLAT_SPM_BUF_BASE p = 0x8000"
    "PLAT_SPM_BUF_SIZE p = 0x100" "PLATFORM_CORE_COUNT p = 8"
  shows "marshal_pre example_layout p example_memory"
    and "array_outside_buffer example_layout p example_memory"
  unfolding marshal_pre_def array_outside_buffer_def example_num_cpus [OF assms(1)]
    example_mp_info [OF assms(1)]
  using assms by (simp_all add: layout_ok_def separate_def example_layout_def)

lemma example_pre: "marshal_pre example_layout example_platform example_memory"
  by (rule example_pre_gen) (simp_all add: example_platform_def)

lemma example_outside: "array_outside_buffer example_layout example_platform example_memory"
  by (rule example_pre_gen) (simp_all add: example_platform_def)

lemma example_array:
  "read_mp_array example_memory 0x2000 2
     = [\<lparr>mpidr = 0, linear_id = 0, flags = 0\<rparr>, \<lparr>mpidr = 1, linear_id = 0, flags = 0\<rparr>]"
  by (simp add: read_mp_array_2 read_mp_info_def example_memory_def load32_def load64_def
      offsetof_mpidr_def offsetof_linear_id_def offsetof_flags_def)

subsection \<open>Records after the annotation\<close>

lemma annotated_fields:
  "mpidr (annotated L p r) = mpidr r"
  "linear_id (annotated L p r) = plat_core_pos_by_mpidr p (mpidr r)"
  "flags (annotated L p r) AND NOT (MP_INFO_FLAG_PRIMARY_CPU L)
     = flags r AND NOT (MP_INFO_FLAG_PRIMARY_CPU L)"
  "is_primary L (annotated L p r)
     = (is_primary L r \<or> plat_core_pos_by_mpidr p (mpidr r) = plat_my_core_pos p)"
proof -
  have "(x OR y) AND NOT y = x AND NOT y" for x y :: "32 word"
    by (rule bit_word_eqI) (auto simp: bit_simps)
  then show "flags (annotated L p r) AND NOT (MP_INFO_FLAG_PRIMARY_CPU L)
     = flags r AND NOT (MP_INFO_FLAG_PRIMARY_CPU L)"
    by (simp add: annotated_def)
  have "(x OR y) AND y = y" for x y :: "32 word"
    by (rule bit_word_eqI) (auto simp: bit_simps)
  then show "is_primary L (annotated L p r)
     = (is_primary L r \<or> plat_core_pos_by_mpidr p (mpidr r) = plat_my_core_pos p)"
    by (auto simp add: annotated_def is_primary_def)
qed (simp_all add: annotated_def)

section \<open>Entry Point Configurator\<close>

text \<open>
  C6. After the Entry Point Configurator runs, the descriptor it applied to the Execution
  Context through \<^verbatim>\<open>cm_setup_context\<close> holds (shared-buffer base, shared-buffer size, cookie0,
  cookie1) in argument slots 0 to 3 and zero in slots 4 to 7.
\<close>

theorem entry_point_args:
  "setup_cpu_context E ctx =
     write_gpreg (cm_setup_context (ext E) ctx (sp_ep_info E)) CTX_GPREG_SP_EL0
       (PLAT_SP_IMAGE_STACK_BASE (plat E) + PLAT_SP_IMAGE_STACK_PCPU_SIZE (plat E)) \<and>
   args (sp_ep_info E) =
     \<lparr>arg0 = PLAT_SPM_BUF_BASE (plat E), arg1 = PLAT_SPM_BUF_SIZE (plat E),
      arg2 = PLAT_SPM_COOKIE_0 (plat E), arg3 = PLAT_SPM_COOKIE_1 (plat E),
      arg4 = 0, arg5 = 0, arg6 = 0, arg7 = 0\<rparr>"
  by (simp add: setup_cpu_context_def sp_ep_info_def SET_PARAM_HEAD_def zero_ep_info_def Let_def)

section \<open>Translation Table Installer\<close>

subsection \<open>The granule assertions\<close>

lemma granule_mask: "k < 32 \<Longrightarrow> (ucast ((2 ^ k :: 32 word) - 1) :: 64 word) = mask k"
proof (rule bit_word_eqI)
  fix n assume "k < 32" "n < LENGTH(64)"
  have "(2 ^ k :: 32 word) - 1 = mask k"
    by (simp add: mask_eq_exp_minus_1)
  then show "bit (ucast ((2 ^ k :: 32 word) - 1) :: 64 word) n = bit (mask k :: 64 word) n"
    using \<open>k < 32\<close> \<open>n < LENGTH(64)\<close> by (auto simp: bit_simps)
qed

lemma granule_aligned_iff:
  assumes "k < 32"
  shows "((x :: 64 word) AND ucast ((2 ^ k :: 32 word) - 1) = 0) = (2 ^ k dvd unat x)"
proof -
  have "(x AND ucast ((2 ^ k :: 32 word) - 1) = 0) = (take_bit k x = 0)"
    by (simp add: granule_mask [OF assms] take_bit_eq_mask)
  also have "\<dots> = (unat (take_bit k x) = 0)"
    by (simp add: unat_eq_0)
  also have "\<dots> = (2 ^ k dvd unat x)"
    by (simp add: unsigned_take_bit_eq take_bit_eq_0_iff)
  finally show ?thesis .
qed

text \<open>
  C5, as amended. In a build with \<^verbatim>\<open>ENABLE_ASSERTIONS\<close>, if the maximum granule is a power
  of two and the non-secure buffer's base is not a multiple of it, or its size is not, the
  Translation Table Installer stops at the assertion with the context exactly as it found
  it: no register slot has been written, in particular none of \<^verbatim>\<open>MAIR_EL1\<close>, \<^verbatim>\<open>TCR_EL1\<close>
  and \<^verbatim>\<open>TTBR0_EL1\<close>. The whole routine then stops in the state the Entry Point Configurator
  left.
\<close>

theorem misaligned_ns_buffer_aborts:
  assumes "ENABLE_ASSERTIONS (plat E)"
    and "xlat_arch_get_max_supported_granule_size (plat E) = 2 ^ k" and "k < 32"
    and "\<not> 2 ^ k dvd unat (PLAT_SP_IMAGE_NS_BUF_BASE (plat E)) \<or>
         \<not> 2 ^ k dvd unat (PLAT_SP_IMAGE_NS_BUF_SIZE (plat E))"
  shows "\<exists>a. install_translation_tables E s = Inl (a, s) \<and>
             spm_sp_setup E w =
               Inl (a, w\<lparr>sp_ctx := (sp_ctx w)\<lparr>cpu_ctx := setup_cpu_context E (cpu_ctx (sp_ctx w))\<rparr>\<rparr>)"
proof -
  have "granule_assertion (plat E) \<noteq> None"
    using assms
    by (auto simp: granule_assertion_def Let_def assert_fails_def granule_aligned_iff)
  then obtain a where a: "granule_assertion (plat E) = Some a"
    by auto
  then have "\<And>s. install_translation_tables E s = Inl (a, s)"
    by (simp add: install_translation_tables_def)
  then show ?thesis
    by (simp add: spm_sp_setup_def Let_def)
qed

theorem misaligned_ns_buffer_aborts_witness:
  "ENABLE_ASSERTIONS (plat (example_env\<lparr>plat := example_platform\<lparr>PLAT_SP_IMAGE_NS_BUF_BASE := 0xFF600800\<rparr>\<rparr>)) \<and>
   \<not> 2 ^ 16 dvd unat (PLAT_SP_IMAGE_NS_BUF_BASE
        (plat (example_env\<lparr>plat := example_platform\<lparr>PLAT_SP_IMAGE_NS_BUF_BASE := 0xFF600800\<rparr>\<rparr>))) \<and>
   (\<exists>a. install_translation_tables
          (example_env\<lparr>plat := example_platform\<lparr>PLAT_SP_IMAGE_NS_BUF_BASE := 0xFF600800\<rparr>\<rparr>)
          example_sp_context = Inl (a, example_sp_context))"
proof -
  let ?E = "example_env\<lparr>plat := example_platform\<lparr>PLAT_SP_IMAGE_NS_BUF_BASE := 0xFF600800\<rparr>\<rparr>"
  have 1: "ENABLE_ASSERTIONS (plat ?E)"
    by (simp add: example_platform_def)
  have 2: "xlat_arch_get_max_supported_granule_size (plat ?E) = 2 ^ 16"
    by (simp add: example_platform_def)
  have 3: "\<not> 2 ^ 16 dvd unat (PLAT_SP_IMAGE_NS_BUF_BASE (plat ?E))"
    by (simp add: example_platform_def)
  have "\<exists>a. install_translation_tables ?E example_sp_context = Inl (a, example_sp_context) \<and>
      spm_sp_setup ?E \<lparr>sp_ctx = example_sp_context, mem = example_memory\<rparr> =
        Inl (a, \<lparr>sp_ctx = example_sp_context, mem = example_memory\<rparr>
                  \<lparr>sp_ctx := (sp_ctx \<lparr>sp_ctx = example_sp_context, mem = example_memory\<rparr>)
                     \<lparr>cpu_ctx := setup_cpu_context ?E
                        (cpu_ctx (sp_ctx \<lparr>sp_ctx = example_sp_context, mem = example_memory\<rparr>))\<rparr>\<rparr>)"
    using 3 by (intro misaligned_ns_buffer_aborts [OF 1 2]) simp_all
  then show ?thesis
    using 1 3 by blast
qed

text \<open>
  The claim as stated fails in a build without \<^verbatim>\<open>ENABLE_ASSERTIONS\<close>: the block of lines
  76-92 is compiled out, and with a base that is not a multiple of the 64 KiB granule the
  Installer runs to its end and writes the three paging-control slots.
\<close>

theorem production_build_skips_granule_check:
  "\<not> 2 ^ 16 dvd unat (PLAT_SP_IMAGE_NS_BUF_BASE (plat misaligned_production_env)) \<and>
   xlat_arch_get_max_supported_granule_size (plat misaligned_production_env) = 2 ^ 16 \<and>
   sysregs_ctx (cpu_ctx example_sp_context) CTX_MAIR_EL1 = 0 \<and>
   (\<exists>s'. install_translation_tables misaligned_production_env example_sp_context = Inr s' \<and>
         sysregs_ctx (cpu_ctx s') CTX_MAIR_EL1 = 0x4404FF \<and>
         sysregs_ctx (cpu_ctx s') CTX_TCR_EL1 = 0x80803520 \<and>
         sysregs_ctx (cpu_ctx s') CTX_TTBR0_EL1 = 0xFF300000)"
  by (simp add: misaligned_production_env_def example_env_def example_platform_def
      example_sp_context_def example_lib_def install_translation_tables_def granule_assertion_def
      setup_xlat_tables_def setup_mmu_regs_def setup_sctlr_el1_def setup_other_sysregs_def
      write_sysreg_def write_ctx_reg_def read_ctx_reg_def Let_def MAP_REGION_FLAT_def)

subsection \<open>The update of \<^verbatim>\<open>SCTLR_EL1\<close>\<close>

lemma sctlr_set_bit:
  assumes "sctlr_set_mask b AND sctlr_clear_mask b = 0" and "bt AND sctlr_set_mask b = bt"
  shows "sctlr_el1_update b old AND bt = bt"
proof (rule bit_word_eqI)
  fix n assume n: "n < LENGTH(64)"
  have 1: "\<not> (bit (sctlr_set_mask b) n \<and> bit (sctlr_clear_mask b) n)"
    using assms(1) by (metis bit_and_iff bit_0_eq bot_apply bot_bool_def)
  have 2: "bit bt n \<Longrightarrow> bit (sctlr_set_mask b) n"
    using assms(2) by (metis bit_and_iff)
  show "bit (sctlr_el1_update b old AND bt) n = bit bt n"
    using 1 2 n by (auto simp: sctlr_el1_update_def Let_def bit_simps)
qed

lemma sctlr_clear_bit:
  assumes "bt AND sctlr_clear_mask b = bt"
  shows "sctlr_el1_update b old AND bt = 0"
proof (rule bit_word_eqI)
  fix n assume n: "n < LENGTH(64)"
  have 2: "bit bt n \<Longrightarrow> bit (sctlr_clear_mask b) n"
    using assms by (metis bit_and_iff)
  show "bit (sctlr_el1_update b old AND bt) n = bit (0 :: 64 word) n"
    using 2 n by (auto simp: sctlr_el1_update_def Let_def bit_simps)
qed

lemma sctlr_written:
  "sysregs_ctx (setup_sctlr_el1 E ctx) CTX_SCTLR_EL1
     = sctlr_el1_update (sctlr E) (sysregs_ctx ctx CTX_SCTLR_EL1)"
  by (simp add: setup_sctlr_el1_def write_sysreg_def write_ctx_reg_def read_ctx_reg_def Let_def)

lemma in_set_mask:
  "SCTLR_UCI_BIT b AND sctlr_set_mask b = SCTLR_UCI_BIT b"
  "SCTLR_WXN_BIT b AND sctlr_set_mask b = SCTLR_WXN_BIT b"
  "SCTLR_NTWI_BIT b AND sctlr_set_mask b = SCTLR_NTWI_BIT b"
  "SCTLR_NTWE_BIT b AND sctlr_set_mask b = SCTLR_NTWE_BIT b"
  "SCTLR_UCT_BIT b AND sctlr_set_mask b = SCTLR_UCT_BIT b"
  "SCTLR_DZE_BIT b AND sctlr_set_mask b = SCTLR_DZE_BIT b"
  "SCTLR_SA0_BIT b AND sctlr_set_mask b = SCTLR_SA0_BIT b"
  "SCTLR_C_BIT b AND sctlr_set_mask b = SCTLR_C_BIT b"
  "SCTLR_I_BIT b AND sctlr_set_mask b = SCTLR_I_BIT b"
  "SCTLR_M_BIT b AND sctlr_set_mask b = SCTLR_M_BIT b"
  by (rule bit_word_eqI, auto simp: sctlr_set_mask_def bit_simps)+

lemma in_clear_mask:
  "SCTLR_E0E_BIT b AND sctlr_clear_mask b = SCTLR_E0E_BIT b"
  "SCTLR_A_BIT b AND sctlr_clear_mask b = SCTLR_A_BIT b"
  "SCTLR_UMA_BIT b AND sctlr_clear_mask b = SCTLR_UMA_BIT b"
  by (rule bit_word_eqI, auto simp: sctlr_clear_mask_def bit_simps)+

lemma installer_outcome:
  "install_translation_tables E s =
     (case granule_assertion (plat E) of
        Some a \<Rightarrow> Inl (a, s)
      | None \<Rightarrow>
          Inr (s\<lparr>cpu_ctx := setup_other_sysregs E (setup_sctlr_el1 E
                    (setup_mmu_regs E (setup_xlat_tables E (xlat_ctx_handle s)) (cpu_ctx s))),
                 xlat_ctx_handle := setup_xlat_tables E (xlat_ctx_handle s)\<rparr>))"
  by (simp add: install_translation_tables_def Let_def split: option.split)

lemma setup_mmu_regs_sctlr:
  "sysregs_ctx (setup_mmu_regs E x ctx) CTX_SCTLR_EL1 = sysregs_ctx ctx CTX_SCTLR_EL1"
  by (simp add: setup_mmu_regs_def write_sysreg_def write_ctx_reg_def Let_def)

lemma setup_other_sysregs_sctlr:
  "sysregs_ctx (setup_other_sysregs E ctx) CTX_SCTLR_EL1 = sysregs_ctx ctx CTX_SCTLR_EL1"
  by (simp add: setup_other_sysregs_def write_sysreg_def write_ctx_reg_def Let_def)

lemma installer_sctlr:
  assumes "install_translation_tables E s = Inr s'"
  shows "sysregs_ctx (cpu_ctx s') CTX_SCTLR_EL1
           = sctlr_el1_update (sctlr E) (sysregs_ctx (cpu_ctx s) CTX_SCTLR_EL1)"
  using assms
  by (auto simp: installer_outcome setup_other_sysregs_sctlr sctlr_written setup_mmu_regs_sctlr
      split: option.splits)

lemma routine_context:
  assumes "spm_sp_setup E w = Inr w'"
  shows "install_translation_tables E ((sp_ctx w)\<lparr>cpu_ctx := setup_cpu_context E (cpu_ctx (sp_ctx w))\<rparr>)
           = Inr (sp_ctx w')"
  using assms by (auto simp: spm_sp_setup_def Let_def split: sum.splits prod.splits)

lemma example_granule: "granule_assertion (plat example_env) = None"
  by (simp add: granule_assertion_def assert_fails_def example_env_def example_platform_def Let_def)

lemma example_entry_sctlr:
  "sysregs_ctx (setup_cpu_context example_env (cpu_ctx example_sp_context)) CTX_SCTLR_EL1 = 0"
  by (simp add: setup_cpu_context_def write_gpreg_def example_env_def example_lib_def
      example_sp_context_def Let_def)

lemma example_routine_runs:
  "\<exists>w'. spm_sp_setup example_env \<lparr>sp_ctx = example_sp_context, mem = example_memory\<rparr> = Inr w'"
proof -
  have "\<exists>m'. marshal_boot_info (sp example_env) (plat example_env) example_memory = Inr m'"
    using marshal_run [OF example_pre] by (simp add: example_env_def)
  then show ?thesis
    by (auto simp: spm_sp_setup_def installer_outcome example_granule Let_def)
qed

text \<open>
  C7. The Installer either stops at a granule assertion, with the context as it found it, or
  returns a context whose \<^verbatim>\<open>SCTLR_EL1\<close> slot has UCI, WXN, nTWI, nTWE, UCT, DZE, SA0, C, I
  and M set and E0E, A and UMA clear, whatever the slot held before; and when the whole
  routine succeeds, the context it ends with is the one the Installer returned. The bit
  positions are those of \<^verbatim>\<open>arch.h\<close>; all that is asked of them is that no bit of the first
  group is also in the second.
\<close>

theorem sctlr_el1_bits:
  assumes "sctlr_set_mask (sctlr E) AND sctlr_clear_mask (sctlr E) = 0"
  shows "(case install_translation_tables E s of
            Inl (a, s') \<Rightarrow> granule_assertion (plat E) = Some a \<and> s' = s
          | Inr s' \<Rightarrow>
              granule_assertion (plat E) = None \<and>
              sysregs_ctx (cpu_ctx s') CTX_SCTLR_EL1 AND SCTLR_UCI_BIT (sctlr E) = SCTLR_UCI_BIT (sctlr E) \<and>
              sysregs_ctx (cpu_ctx s') CTX_SCTLR_EL1 AND SCTLR_WXN_BIT (sctlr E) = SCTLR_WXN_BIT (sctlr E) \<and>
              sysregs_ctx (cpu_ctx s') CTX_SCTLR_EL1 AND SCTLR_NTWI_BIT (sctlr E) = SCTLR_NTWI_BIT (sctlr E) \<and>
              sysregs_ctx (cpu_ctx s') CTX_SCTLR_EL1 AND SCTLR_NTWE_BIT (sctlr E) = SCTLR_NTWE_BIT (sctlr E) \<and>
              sysregs_ctx (cpu_ctx s') CTX_SCTLR_EL1 AND SCTLR_UCT_BIT (sctlr E) = SCTLR_UCT_BIT (sctlr E) \<and>
              sysregs_ctx (cpu_ctx s') CTX_SCTLR_EL1 AND SCTLR_DZE_BIT (sctlr E) = SCTLR_DZE_BIT (sctlr E) \<and>
              sysregs_ctx (cpu_ctx s') CTX_SCTLR_EL1 AND SCTLR_SA0_BIT (sctlr E) = SCTLR_SA0_BIT (sctlr E) \<and>
              sysregs_ctx (cpu_ctx s') CTX_SCTLR_EL1 AND SCTLR_C_BIT (sctlr E) = SCTLR_C_BIT (sctlr E) \<and>
              sysregs_ctx (cpu_ctx s') CTX_SCTLR_EL1 AND SCTLR_I_BIT (sctlr E) = SCTLR_I_BIT (sctlr E) \<and>
              sysregs_ctx (cpu_ctx s') CTX_SCTLR_EL1 AND SCTLR_M_BIT (sctlr E) = SCTLR_M_BIT (sctlr E) \<and>
              sysregs_ctx (cpu_ctx s') CTX_SCTLR_EL1 AND SCTLR_E0E_BIT (sctlr E) = 0 \<and>
              sysregs_ctx (cpu_ctx s') CTX_SCTLR_EL1 AND SCTLR_A_BIT (sctlr E) = 0 \<and>
              sysregs_ctx (cpu_ctx s') CTX_SCTLR_EL1 AND SCTLR_UMA_BIT (sctlr E) = 0) \<and>
         (\<forall>w w'. spm_sp_setup E w = Inr w' \<longrightarrow>
            install_translation_tables E
              ((sp_ctx w)\<lparr>cpu_ctx := setup_cpu_context E (cpu_ctx (sp_ctx w))\<rparr>) = Inr (sp_ctx w'))"
proof (intro conjI allI impI)
  show "install_translation_tables E
          ((sp_ctx w)\<lparr>cpu_ctx := setup_cpu_context E (cpu_ctx (sp_ctx w))\<rparr>) = Inr (sp_ctx w')"
    if "spm_sp_setup E w = Inr w'" for w w'
    by (rule routine_context [OF that])
  show "case install_translation_tables E s of
            Inl (a, s') \<Rightarrow> granule_assertion (plat E) = Some a \<and> s' = s
          | Inr s' \<Rightarrow>
              granule_assertion (plat E) = None \<and>
              sysregs_ctx (cpu_ctx s') CTX_SCTLR_EL1 AND SCTLR_UCI_BIT (sctlr E) = SCTLR_UCI_BIT (sctlr E) \<and>
              sysregs_ctx (cpu_ctx s') CTX_SCTLR_EL1 AND SCTLR_WXN_BIT (sctlr E) = SCTLR_WXN_BIT (sctlr E) \<and>
              sysregs_ctx (cpu_ctx s') CTX_SCTLR_EL1 AND SCTLR_NTWI_BIT (sctlr E) = SCTLR_NTWI_BIT (sctlr E) \<and>
              sysregs_ctx (cpu_ctx s') CTX_SCTLR_EL1 AND SCTLR_NTWE_BIT (sctlr E) = SCTLR_NTWE_BIT (sctlr E) \<and>
              sysregs_ctx (cpu_ctx s') CTX_SCTLR_EL1 AND SCTLR_UCT_BIT (sctlr E) = SCTLR_UCT_BIT (sctlr E) \<and>
              sysregs_ctx (cpu_ctx s') CTX_SCTLR_EL1 AND SCTLR_DZE_BIT (sctlr E) = SCTLR_DZE_BIT (sctlr E) \<and>
              sysregs_ctx (cpu_ctx s') CTX_SCTLR_EL1 AND SCTLR_SA0_BIT (sctlr E) = SCTLR_SA0_BIT (sctlr E) \<and>
              sysregs_ctx (cpu_ctx s') CTX_SCTLR_EL1 AND SCTLR_C_BIT (sctlr E) = SCTLR_C_BIT (sctlr E) \<and>
              sysregs_ctx (cpu_ctx s') CTX_SCTLR_EL1 AND SCTLR_I_BIT (sctlr E) = SCTLR_I_BIT (sctlr E) \<and>
              sysregs_ctx (cpu_ctx s') CTX_SCTLR_EL1 AND SCTLR_M_BIT (sctlr E) = SCTLR_M_BIT (sctlr E) \<and>
              sysregs_ctx (cpu_ctx s') CTX_SCTLR_EL1 AND SCTLR_E0E_BIT (sctlr E) = 0 \<and>
              sysregs_ctx (cpu_ctx s') CTX_SCTLR_EL1 AND SCTLR_A_BIT (sctlr E) = 0 \<and>
              sysregs_ctx (cpu_ctx s') CTX_SCTLR_EL1 AND SCTLR_UMA_BIT (sctlr E) = 0"
  proof (cases "install_translation_tables E s")
    case (Inl r)
    then show ?thesis
      by (auto simp: installer_outcome split: option.splits)
  next
    case (Inr s')
    have "granule_assertion (plat E) = None"
      using Inr by (auto simp: installer_outcome split: option.splits)
    then show ?thesis
      using Inr
      by (simp add: installer_sctlr [OF Inr] sctlr_set_bit [OF assms] sctlr_clear_bit
          in_set_mask in_clear_mask)
  qed
qed

theorem sctlr_el1_bits_witness:
  "sctlr_set_mask (sctlr example_env) AND sctlr_clear_mask (sctlr example_env) = 0 \<and>
   sysregs_ctx (cpu_ctx example_sp_context) CTX_SCTLR_EL1 = 0 \<and>
   (\<exists>s'. install_translation_tables example_env example_sp_context = Inr s' \<and>
      sysregs_ctx (cpu_ctx s') CTX_SCTLR_EL1 = 0x40DD015 \<and>
      sysregs_ctx (cpu_ctx s') CTX_SCTLR_EL1 AND SCTLR_UCI_BIT (sctlr example_env)
        = SCTLR_UCI_BIT (sctlr example_env) \<and>
      sysregs_ctx (cpu_ctx s') CTX_SCTLR_EL1 AND SCTLR_UMA_BIT (sctlr example_env) = 0) \<and>
   (\<exists>w'. spm_sp_setup example_env \<lparr>sp_ctx = example_sp_context, mem = example_memory\<rparr> = Inr w' \<and>
      sysregs_ctx (cpu_ctx (sp_ctx w')) CTX_SCTLR_EL1 = 0x40DD015)"
proof -
  have d: "sctlr_set_mask (sctlr example_env) AND sctlr_clear_mask (sctlr example_env) = 0"
    by (simp add: example_env_def aarch64_sctlr_bits_def sctlr_set_mask_def sctlr_clear_mask_def)
  have z: "sysregs_ctx (cpu_ctx example_sp_context) CTX_SCTLR_EL1 = 0"
    by (simp add: example_sp_context_def)
  have u: "sctlr_el1_update (sctlr example_env) 0 = 0x40DD015"
    by (simp add: example_env_def aarch64_sctlr_bits_def sctlr_set_mask_def sctlr_clear_mask_def
        sctlr_el1_update_def Let_def)
  obtain s' where s': "install_translation_tables example_env example_sp_context = Inr s'"
    by (auto simp: installer_outcome example_granule)
  have v: "sysregs_ctx (cpu_ctx s') CTX_SCTLR_EL1 = 0x40DD015"
    unfolding installer_sctlr [OF s'] z by (rule u)
  have b: "sysregs_ctx (cpu_ctx s') CTX_SCTLR_EL1 AND SCTLR_UCI_BIT (sctlr example_env)
          = SCTLR_UCI_BIT (sctlr example_env) \<and>
        sysregs_ctx (cpu_ctx s') CTX_SCTLR_EL1 AND SCTLR_UMA_BIT (sctlr example_env) = 0"
    using sctlr_el1_bits [OF d, of example_sp_context, THEN conjunct1] by (simp add: s')
  obtain w' where w': "spm_sp_setup example_env \<lparr>sp_ctx = example_sp_context, mem = example_memory\<rparr> = Inr w'"
    using example_routine_runs by blast
  have "install_translation_tables example_env
          (example_sp_context\<lparr>cpu_ctx := setup_cpu_context example_env (cpu_ctx example_sp_context)\<rparr>)
        = Inr (sp_ctx w')"
    using sctlr_el1_bits [OF d, of example_sp_context, THEN conjunct2] w' by fastforce
  then have "sysregs_ctx (cpu_ctx (sp_ctx w')) CTX_SCTLR_EL1 = 0x40DD015"
    using installer_sctlr u by (fastforce simp: example_entry_sctlr)
  then show ?thesis
    using d z s' v b w' by blast
qed

text \<open>
  C8. The \<^verbatim>\<open>SCTLR_EL1\<close> slot is read, modified and written back: the new value is the old
  one with the ten bits set and the three cleared, and under the complement of the thirteen
  toggles the new value and the old one agree, so every other bit keeps its value.
\<close>

theorem sctlr_el1_read_modify_write:
  "sysregs_ctx (setup_sctlr_el1 E ctx) CTX_SCTLR_EL1
     = (sysregs_ctx ctx CTX_SCTLR_EL1 OR sctlr_set_mask (sctlr E)) AND NOT (sctlr_clear_mask (sctlr E)) \<and>
   sysregs_ctx (setup_sctlr_el1 E ctx) CTX_SCTLR_EL1
       AND NOT (sctlr_set_mask (sctlr E) OR sctlr_clear_mask (sctlr E))
     = sysregs_ctx ctx CTX_SCTLR_EL1
       AND NOT (sctlr_set_mask (sctlr E) OR sctlr_clear_mask (sctlr E))"
proof
  show "sysregs_ctx (setup_sctlr_el1 E ctx) CTX_SCTLR_EL1
     = (sysregs_ctx ctx CTX_SCTLR_EL1 OR sctlr_set_mask (sctlr E)) AND NOT (sctlr_clear_mask (sctlr E))"
    by (simp add: sctlr_written sctlr_el1_update_def Let_def)
  show "sysregs_ctx (setup_sctlr_el1 E ctx) CTX_SCTLR_EL1
       AND NOT (sctlr_set_mask (sctlr E) OR sctlr_clear_mask (sctlr E))
     = sysregs_ctx ctx CTX_SCTLR_EL1
       AND NOT (sctlr_set_mask (sctlr E) OR sctlr_clear_mask (sctlr E))"
    unfolding sctlr_written sctlr_el1_update_def Let_def
    by (rule bit_word_eqI) (auto simp: bit_simps)
qed

section \<open>Boot-Info Marshaller\<close>

text \<open>
  C4, as amended. When the Marshaller's preconditions hold (the record's and the array's
  pointers are not null, the core count is within the platform's maximum, the record and the
  array fit in the buffer, whose end does not overflow, and the platform's record lies
  outside the buffer) and the platform's array lies outside the buffer too, the run
  succeeds, and the array read back from the buffer (just past the copied record) has the
  records of the platform's array in their order: the same affinity identifiers, the same
  flag bits apart from the primary bit, and as linear index what the lookup gives for the
  record's affinity identifier.
\<close>

theorem marshal_round_trip:
  assumes "marshal_pre L p m" and "array_outside_buffer L p m"
  shows "\<exists>m'. marshal_boot_info L p m = Inr m' \<and>
     map mpidr (read_mp_array m' (PLAT_SPM_BUF_BASE p + of_nat (sizeof_boot_info L))
                  (unat (boot_num_cpus L p m)))
       = map mpidr (read_mp_array m (boot_mp_info L p m) (unat (boot_num_cpus L p m))) \<and>
     map (\<lambda>r. flags r AND NOT (MP_INFO_FLAG_PRIMARY_CPU L))
         (read_mp_array m' (PLAT_SPM_BUF_BASE p + of_nat (sizeof_boot_info L))
            (unat (boot_num_cpus L p m)))
       = map (\<lambda>r. flags r AND NOT (MP_INFO_FLAG_PRIMARY_CPU L))
           (read_mp_array m (boot_mp_info L p m) (unat (boot_num_cpus L p m))) \<and>
     map linear_id (read_mp_array m' (PLAT_SPM_BUF_BASE p + of_nat (sizeof_boot_info L))
                      (unat (boot_num_cpus L p m)))
       = map (\<lambda>r. plat_core_pos_by_mpidr p (mpidr r))
           (read_mp_array m (boot_mp_info L p m) (unat (boot_num_cpus L p m)))"
proof -
  obtain m' where m': "marshal_boot_info L p m = Inr m'"
    using marshal_run [OF assms(1)] by blast
  show ?thesis
    by (rule exI [of _ m']) (simp add: m' marshal_array [OF assms m'] o_def annotated_fields)
qed

theorem marshal_round_trip_witness:
  "marshal_pre example_layout example_platform example_memory \<and>
   array_outside_buffer example_layout example_platform example_memory \<and>
   (\<exists>m'. marshal_boot_info example_layout example_platform example_memory = Inr m' \<and>
      map mpidr (read_mp_array m' 0x8040 2) = [0, 1] \<and>
      map (\<lambda>r. flags r AND NOT 1) (read_mp_array m' 0x8040 2) = [0, 0] \<and>
      map linear_id (read_mp_array m' 0x8040 2) = [0, 1])"
proof -
  have n: "boot_num_cpus example_layout example_platform example_memory = 2"
    by (rule example_num_cpus) (simp add: example_platform_def)
  have a: "boot_mp_info example_layout example_platform example_memory = 0x2000"
    by (rule example_mp_info) (simp add: example_platform_def)
  show ?thesis
    using marshal_round_trip [OF example_pre example_outside] example_pre example_outside
    unfolding n a
    by (simp add: example_array example_layout_def example_platform_def)
qed

lemma array_in_buffer_fields:
  "boot_num_cpus example_layout example_platform array_in_buffer_memory = 1"
  "boot_mp_info example_layout example_platform array_in_buffer_memory = 0x8020"
  by (simp_all add: boot_num_cpus_def boot_mp_info_def example_layout_def example_platform_def
      array_in_buffer_memory_def load32_def load64_def)

lemma array_in_buffer_pre: "marshal_pre example_layout example_platform array_in_buffer_memory"
  unfolding marshal_pre_def array_in_buffer_fields
  by (simp add: layout_ok_def separate_def example_layout_def example_platform_def)

lemma array_in_buffer_input:
  "map mpidr (read_mp_array array_in_buffer_memory 0x8020 1) = [0x55]"
  by (simp add: read_mp_array_def read_mp_info_def offsetof_mpidr_def load64_def
      array_in_buffer_memory_def)

text \<open>
  The claim as stated, for any input array, fails: the code never checks where the
  platform's array lies. With the array at \<open>0x8020\<close>, inside the buffer, every assertion
  holds and neither \<^verbatim>\<open>memcpy\<close> has overlapping ranges, but the copy of the record overwrites
  the array before it is read: the affinity \<open>0x55\<close> of the input comes back as \<open>0\<close>.
\<close>

theorem round_trip_fails_for_array_in_buffer:
  "ENABLE_ASSERTIONS example_platform \<and>
   plat_get_secure_partition_boot_info example_platform = 0x1000 \<and>
   PLAT_SPM_BUF_BASE example_platform = 0x8000 \<and>
   PLAT_SPM_BUF_SIZE example_platform = 0x100 \<and>
   boot_num_cpus example_layout example_platform array_in_buffer_memory = 1 \<and>
   boot_mp_info example_layout example_platform array_in_buffer_memory = 0x8020 \<and>
   map mpidr (read_mp_array array_in_buffer_memory 0x8020 1) = [0x55] \<and>
   (\<exists>m'. marshal_boot_info example_layout example_platform array_in_buffer_memory = Inr m' \<and>
         map mpidr (read_mp_array m' 0x8040 1) = [0])"
proof -
  let ?L = example_layout and ?p = example_platform and ?m = array_in_buffer_memory
  let ?m3 = "memcpy (boot_info_patched ?L ?p ?m) 0x8040 0x8020 16"
  have c: "PLAT_SPM_BUF_BASE ?p = 0x8000" "plat_get_secure_partition_boot_info ?p = 0x1000"
    "sizeof_boot_info ?L = 64" "offsetof_mp_info ?L = 56" "ENABLE_ASSERTIONS ?p"
    "PLAT_SPM_BUF_SIZE ?p = 0x100"
    by (simp_all add: example_platform_def example_layout_def)
  have run: "marshal_boot_info ?L ?p ?m
               = Inr (fold (\<lambda>k. annotate_record ?L ?p 0x8040 (of_nat k)) [0..<1] ?m3)"
    using marshal_run [OF array_in_buffer_pre] unfolding array_in_buffer_fields c by simp
  have byte: "?m3 (at_off 0x8040 (0 + j)) = ?m (at_off 0x1000 (32 + j))" if "j < 8" for j
  proof -
    have "?m3 (at_off 0x8040 j) = boot_info_patched ?L ?p ?m (at_off 0x8020 j)"
    proof (rule memcpy_at_copied)
      show "(16 :: nat) \<le> 2 ^ 64" by simp
      show "j < 16" using that by simp
      fix i k :: nat assume "i < 16" "k < 16"
      then show "at_off (0x8020 :: 64 word) i \<noteq> at_off 0x8040 k"
        by (intro separate_at_off [of _ 16 _ 16]) (simp_all add: separate_def)
    qed
    also have "at_off (0x8020 :: 64 word) j = at_off (PLAT_SPM_BUF_BASE ?p) (32 + j)"
      by (simp add: c at_off_def)
    also have "boot_info_patched ?L ?p ?m (at_off (PLAT_SPM_BUF_BASE ?p) (32 + j))
                 = boot_info_copied ?L ?p ?m (at_off (PLAT_SPM_BUF_BASE ?p) (32 + j))"
    proof (rule boot_info_patched_other)
      fix i :: nat assume "i < 8"
      then show "at_off (PLAT_SPM_BUF_BASE ?p) (32 + j)
                   \<noteq> at_off (PLAT_SPM_BUF_BASE ?p) (offsetof_mp_info ?L + i)"
        using that by (subst at_off_eq) (simp_all add: c)
    qed
    also have "\<dots> = ?m (at_off (plat_get_secure_partition_boot_info ?p) (32 + j))"
      using that
      by (intro boot_info_copied_byte [where s = "sizeof_boot_info ?L"])
        (simp_all add: c separate_def)
    finally show ?thesis
      by (simp add: c)
  qed
  have "load64 ?m3 (at_off 0x8040 0) = load64 ?m (at_off 0x1000 32)"
    by (rule load64_at_cong) (rule byte)
  then have copied: "load64 ?m3 0x8040 = 0"
    by (simp add: at_off_def load64_def array_in_buffer_memory_def)
  have "read_mp_info (fold (\<lambda>k. annotate_record ?L ?p 0x8040 (of_nat k)) [0..<1] ?m3)
          (at_off 0x8040 (16 * 0))
        = annotated ?L ?p (read_mp_info ?m3 (at_off 0x8040 (16 * 0)))"
    by (rule annotate_fold_read) simp_all
  then have "mpidr (read_mp_info (fold (\<lambda>k. annotate_record ?L ?p 0x8040 (of_nat k)) [0..<1] ?m3)
                0x8040) = 0"
    using copied by (simp add: at_off_def annotated_def read_mp_info_def offsetof_mpidr_def)
  then have "map mpidr (read_mp_array
                (fold (\<lambda>k. annotate_record ?L ?p 0x8040 (of_nat k)) [0..<1] ?m3) 0x8040 1) = [0]"
    by (simp add: read_mp_array_def)
  then show ?thesis
    using run c array_in_buffer_fields array_in_buffer_input by simp
qed

text \<open>
  C1, as amended. After a successful run an output record carries the primary flag exactly
  when the platform's record already carried it or its affinity identifier resolves to the
  calling core's linear index. So if no record of the platform carries the flag, the flagged
  output records are as many as the platform's records whose affinity identifier resolves to
  the calling core's index (one, when the platform lists the calling core once), and each of
  them resolves to that index.
\<close>

theorem primary_flag_characterised:
  assumes "marshal_pre L p m" and "array_outside_buffer L p m"
  shows "\<exists>m'. marshal_boot_info L p m = Inr m' \<and>
     map (is_primary L)
         (read_mp_array m' (PLAT_SPM_BUF_BASE p + of_nat (sizeof_boot_info L))
            (unat (boot_num_cpus L p m)))
       = map (\<lambda>r. is_primary L r \<or> plat_core_pos_by_mpidr p (mpidr r) = plat_my_core_pos p)
           (read_mp_array m (boot_mp_info L p m) (unat (boot_num_cpus L p m))) \<and>
     (list_all (\<lambda>r. \<not> is_primary L r)
        (read_mp_array m (boot_mp_info L p m) (unat (boot_num_cpus L p m))) \<longrightarrow>
      length (filter (is_primary L)
         (read_mp_array m' (PLAT_SPM_BUF_BASE p + of_nat (sizeof_boot_info L))
            (unat (boot_num_cpus L p m))))
        = length (filter (\<lambda>r. plat_core_pos_by_mpidr p (mpidr r) = plat_my_core_pos p)
            (read_mp_array m (boot_mp_info L p m) (unat (boot_num_cpus L p m)))) \<and>
      list_all (\<lambda>r. is_primary L r \<longrightarrow> plat_core_pos_by_mpidr p (mpidr r) = plat_my_core_pos p)
         (read_mp_array m' (PLAT_SPM_BUF_BASE p + of_nat (sizeof_boot_info L))
            (unat (boot_num_cpus L p m))))"
proof -
  obtain m' where m': "marshal_boot_info L p m = Inr m'"
    using marshal_run [OF assms(1)] by blast
  let ?inp = "read_mp_array m (boot_mp_info L p m) (unat (boot_num_cpus L p m))"
  let ?out = "read_mp_array m' (PLAT_SPM_BUF_BASE p + of_nat (sizeof_boot_info L))
                (unat (boot_num_cpus L p m))"
  have out: "?out = map (annotated L p) ?inp"
    by (rule marshal_array [OF assms m'])
  have 1: "map (is_primary L) ?out
             = map (\<lambda>r. is_primary L r \<or> plat_core_pos_by_mpidr p (mpidr r) = plat_my_core_pos p) ?inp"
    by (simp add: out o_def annotated_fields)
  have 2: "length (filter (is_primary L) ?out)
             = length (filter (\<lambda>r. plat_core_pos_by_mpidr p (mpidr r) = plat_my_core_pos p) ?inp)"
    if "list_all (\<lambda>r. \<not> is_primary L r) ?inp"
  proof -
    have "filter (\<lambda>r. is_primary L (annotated L p r)) ?inp
            = filter (\<lambda>r. plat_core_pos_by_mpidr p (mpidr r) = plat_my_core_pos p) ?inp"
      using that by (intro filter_cong refl) (simp add: list_all_iff annotated_fields)
    then show ?thesis
      by (simp add: out filter_map o_def)
  qed
  have 3: "list_all (\<lambda>r. is_primary L r \<longrightarrow> plat_core_pos_by_mpidr p (mpidr r) = plat_my_core_pos p) ?out"
    if "list_all (\<lambda>r. \<not> is_primary L r) ?inp"
    using that by (simp add: out list_all_iff annotated_fields)
  show ?thesis
    using 1 2 3 by (intro exI [of _ m']) (simp add: m')
qed

theorem primary_flag_characterised_witness:
  "marshal_pre example_layout example_platform example_memory \<and>
   array_outside_buffer example_layout example_platform example_memory \<and>
   list_all (\<lambda>r. \<not> is_primary example_layout r) (read_mp_array example_memory 0x2000 2) \<and>
   (\<exists>m'. marshal_boot_info example_layout example_platform example_memory = Inr m' \<and>
      map (is_primary example_layout) (read_mp_array m' 0x8040 2) = [True, False] \<and>
      length (filter (is_primary example_layout) (read_mp_array m' 0x8040 2)) = 1)"
proof -
  have n: "boot_num_cpus example_layout example_platform example_memory = 2"
    by (rule example_num_cpus) (simp add: example_platform_def)
  have a: "boot_mp_info example_layout example_platform example_memory = 0x2000"
    by (rule example_mp_info) (simp add: example_platform_def)
  have dst: "PLAT_SPM_BUF_BASE example_platform + of_nat (sizeof_boot_info example_layout) = 0x8040"
    by (simp add: example_platform_def example_layout_def)
  have lk: "plat_core_pos_by_mpidr example_platform = (\<lambda>mpidr. ucast (mpidr AND 0xFF))"
    "plat_my_core_pos example_platform = 0"
    by (simp_all add: example_platform_def)
  have prim: "is_primary example_layout = (\<lambda>r. flags r AND 1 = 1)"
    by (simp add: is_primary_def example_layout_def fun_eq_iff)
  have u: "list_all (\<lambda>r. \<not> is_primary example_layout r) (read_mp_array example_memory 0x2000 2)"
    by (simp add: example_array prim)
  note t = primary_flag_characterised [OF example_pre example_outside, unfolded n a dst]
  have "\<exists>m'. marshal_boot_info example_layout example_platform example_memory = Inr m' \<and>
      map (is_primary example_layout) (read_mp_array m' 0x8040 2) = [True, False] \<and>
      length (filter (is_primary example_layout) (read_mp_array m' 0x8040 2)) = 1"
    using t u by (auto simp add: example_array lk prim)
  then show ?thesis
    using example_pre example_outside u by simp
qed

text \<open>
  The claim as stated fails: when the calling core (here of linear index 2) is not among the
  cores the platform lists, the run succeeds and no output record carries the flag.
\<close>

theorem no_primary_when_caller_not_listed:
  "marshal_pre example_layout (example_platform\<lparr>plat_my_core_pos := 2\<rparr>) example_memory \<and>
   array_outside_buffer example_layout (example_platform\<lparr>plat_my_core_pos := 2\<rparr>) example_memory \<and>
   boot_num_cpus example_layout (example_platform\<lparr>plat_my_core_pos := 2\<rparr>) example_memory = 2 \<and>
   (\<exists>m'. marshal_boot_info example_layout (example_platform\<lparr>plat_my_core_pos := 2\<rparr>) example_memory
            = Inr m' \<and>
         length (filter (is_primary example_layout) (read_mp_array m' 0x8040 2)) = 0)"
proof -
  let ?p = "example_platform\<lparr>plat_my_core_pos := 2\<rparr>"
  have bi: "plat_get_secure_partition_boot_info ?p = 0x1000"
    by (simp add: example_platform_def)
  have pre: "marshal_pre example_layout ?p example_memory"
    by (rule example_pre_gen) (simp_all add: example_platform_def)
  have out: "array_outside_buffer example_layout ?p example_memory"
    by (rule example_pre_gen) (simp_all add: example_platform_def)
  obtain m' where m': "marshal_boot_info example_layout ?p example_memory = Inr m'"
    using marshal_run [OF pre] by blast
  have "read_mp_array m' 0x8040 2
          = map (annotated example_layout ?p) (read_mp_array example_memory 0x2000 2)"
    using marshal_array [OF pre out m']
    unfolding example_num_cpus [OF bi] example_mp_info [OF bi]
    by (simp add: example_layout_def example_platform_def)
  then have "length (filter (is_primary example_layout) (read_mp_array m' 0x8040 2)) = 0"
    by (simp add: example_array annotated_def is_primary_def example_layout_def example_platform_def)
  then show ?thesis
    using pre out m' example_num_cpus [OF bi] by blast
qed

text \<open>
  C3, as amended. After a successful run the MP-Info pointer field of the buffer's record is
  the buffer's base plus the size of the record. It differs from the platform's original
  array address whenever the platform's array is not empty and lies outside the buffer.
\<close>

theorem pointer_field_after_run:
  assumes "marshal_pre L p m"
  shows "\<exists>m'. marshal_boot_info L p m = Inr m' \<and>
     load64 m' (PLAT_SPM_BUF_BASE p + of_nat (offsetof_mp_info L))
       = PLAT_SPM_BUF_BASE p + of_nat (sizeof_boot_info L) \<and>
     (0 < unat (boot_num_cpus L p m) \<and> array_outside_buffer L p m \<longrightarrow>
      load64 m' (PLAT_SPM_BUF_BASE p + of_nat (offsetof_mp_info L)) \<noteq> boot_mp_info L p m)"
proof -
  note f = marshal_pre_facts [OF assms]
  obtain m' where m': "marshal_boot_info L p m = Inr m'"
    using marshal_run [OF assms] by blast
  have ptr: "load64 m' (PLAT_SPM_BUF_BASE p + of_nat (offsetof_mp_info L))
               = PLAT_SPM_BUF_BASE p + of_nat (sizeof_boot_info L)"
    by (rule marshal_pointer [OF assms m'])
  have "PLAT_SPM_BUF_BASE p + of_nat (sizeof_boot_info L) \<noteq> boot_mp_info L p m"
    if "0 < unat (boot_num_cpus L p m)" "array_outside_buffer L p m"
  proof -
    have "at_off (boot_mp_info L p m) 0 \<noteq> at_off (PLAT_SPM_BUF_BASE p) (sizeof_boot_info L)"
      using that f(6)
      by (intro separate_at_off [OF that(2) [unfolded array_outside_buffer_def]]) auto
    then show ?thesis
      by (auto simp: at_off_def)
  qed
  then show ?thesis
    using m' ptr by auto
qed

theorem pointer_field_after_run_witness:
  "marshal_pre example_layout example_platform example_memory \<and>
   0 < unat (boot_num_cpus example_layout example_platform example_memory) \<and>
   array_outside_buffer example_layout example_platform example_memory \<and>
   boot_mp_info example_layout example_platform example_memory = 0x2000 \<and>
   (\<exists>m'. marshal_boot_info example_layout example_platform example_memory = Inr m' \<and>
         load64 m' 0x8038 = 0x8040)"
proof -
  have n: "boot_num_cpus example_layout example_platform example_memory = 2"
    by (rule example_num_cpus) (simp add: example_platform_def)
  have a: "boot_mp_info example_layout example_platform example_memory = 0x2000"
    by (rule example_mp_info) (simp add: example_platform_def)
  have dst: "PLAT_SPM_BUF_BASE example_platform + of_nat (sizeof_boot_info example_layout) = 0x8040"
    "PLAT_SPM_BUF_BASE example_platform + of_nat (offsetof_mp_info example_layout) = 0x8038"
    by (simp_all add: example_platform_def example_layout_def)
  note t = pointer_field_after_run [OF example_pre, unfolded n a dst]
  have "\<exists>m'. marshal_boot_info example_layout example_platform example_memory = Inr m' \<and>
         load64 m' 0x8038 = 0x8040"
    using t by auto
  then show ?thesis
    using example_pre example_outside n a by simp
qed

lemma in_place_fields:
  "boot_num_cpus example_layout example_platform in_place_memory = 0"
  "boot_mp_info example_layout example_platform in_place_memory = 0x8040"
  by (simp_all add: boot_num_cpus_def boot_mp_info_def example_layout_def example_platform_def
      in_place_memory_def load32_def load64_def)

lemma in_place_pre: "marshal_pre example_layout example_platform in_place_memory"
  unfolding marshal_pre_def in_place_fields
  by (simp add: layout_ok_def separate_def example_layout_def example_platform_def)

text \<open>
  The claim as stated fails: a platform that reports no cores may leave in its record the
  address just past the buffer's record, and the patched pointer is then the platform's
  original one.
\<close>

theorem patched_pointer_may_equal_original:
  "plat_get_secure_partition_boot_info example_platform = 0x1000 \<and>
   boot_num_cpus example_layout example_platform in_place_memory = 0 \<and>
   boot_mp_info example_layout example_platform in_place_memory = 0x8040 \<and>
   (\<exists>m'. marshal_boot_info example_layout example_platform in_place_memory = Inr m' \<and>
         load64 m' 0x8038 = boot_mp_info example_layout example_platform in_place_memory)"
proof -
  obtain m' where m': "marshal_boot_info example_layout example_platform in_place_memory = Inr m'"
    using marshal_run [OF in_place_pre] by blast
  have "load64 m' 0x8038 = 0x8040"
    using marshal_pointer [OF in_place_pre m']
    by (simp add: example_platform_def example_layout_def)
  then show ?thesis
    using m' by (simp add: in_place_fields) (simp add: example_platform_def)
qed

text \<open>
  C9, as amended. When the Marshaller's preconditions hold (among them: the platform's
  record lies outside the buffer) and the platform's array lies outside the buffer too, the
  second \<^verbatim>\<open>memcpy\<close> reads from the address the platform's record held before the patch,
  although the buffer's record now holds the patched pointer; the bytes it puts in the
  buffer are the bytes of the platform's array; and after the run the platform's record and
  array hold what they held before.
\<close>

theorem array_copied_from_platform:
  assumes "marshal_pre L p m" and "array_outside_buffer L p m"
  shows "marshal_boot_info L p m =
           Inr (annotate_loop L p (plat_get_secure_partition_boot_info p)
                  (PLAT_SPM_BUF_BASE p + of_nat (sizeof_boot_info L)) 0
                  (memcpy (boot_info_patched L p m)
                     (PLAT_SPM_BUF_BASE p + of_nat (sizeof_boot_info L))
                     (boot_mp_info L p m) (16 * unat (boot_num_cpus L p m)))) \<and>
     load64 (boot_info_patched L p m) (PLAT_SPM_BUF_BASE p + of_nat (offsetof_mp_info L))
       = PLAT_SPM_BUF_BASE p + of_nat (sizeof_boot_info L) \<and>
     (\<forall>k. k < 16 * unat (boot_num_cpus L p m) \<longrightarrow>
        memcpy (boot_info_patched L p m) (PLAT_SPM_BUF_BASE p + of_nat (sizeof_boot_info L))
          (boot_mp_info L p m) (16 * unat (boot_num_cpus L p m))
          (PLAT_SPM_BUF_BASE p + of_nat (sizeof_boot_info L) + of_nat k)
        = m (boot_mp_info L p m + of_nat k)) \<and>
     (\<exists>m'. marshal_boot_info L p m = Inr m' \<and>
        (\<forall>k. k < sizeof_boot_info L \<longrightarrow>
           m' (plat_get_secure_partition_boot_info p + of_nat k)
             = m (plat_get_secure_partition_boot_info p + of_nat k)) \<and>
        (\<forall>k. k < 16 * unat (boot_num_cpus L p m) \<longrightarrow>
           m' (boot_mp_info L p m + of_nat k) = m (boot_mp_info L p m + of_nat k)))"
proof -
  note f = marshal_pre_facts [OF assms(1)]
  have sep: "separate (boot_mp_info L p m) (16 * unat (boot_num_cpus L p m))
               (PLAT_SPM_BUF_BASE p) (unat (PLAT_SPM_BUF_SIZE p))"
    using assms(2) by (simp add: array_outside_buffer_def)
  obtain m' where m': "marshal_boot_info L p m = Inr m'"
    using marshal_run [OF assms(1)] by blast
  have bytes: "memcpy (boot_info_patched L p m) (PLAT_SPM_BUF_BASE p + of_nat (sizeof_boot_info L))
          (boot_mp_info L p m) (16 * unat (boot_num_cpus L p m))
          (PLAT_SPM_BUF_BASE p + of_nat (sizeof_boot_info L) + of_nat k)
        = m (boot_mp_info L p m + of_nat k)" if "k < 16 * unat (boot_num_cpus L p m)" for k
    using mp_info_copied_byte [OF assms that] by (simp add: at_off_def add.assoc)
  have rec: "m' (plat_get_secure_partition_boot_info p + of_nat k)
               = m (plat_get_secure_partition_boot_info p + of_nat k)"
    if "k < sizeof_boot_info L" for k
  proof (rule marshal_frame [OF assms(1) m'])
    fix j assume "j < sizeof_boot_info L + 16 * unat (boot_num_cpus L p m)"
    then have "at_off (plat_get_secure_partition_boot_info p) k \<noteq> at_off (PLAT_SPM_BUF_BASE p) j"
      using that f(6) by (intro separate_at_off [OF f(7)]) auto
    then show "plat_get_secure_partition_boot_info p + of_nat k \<noteq> at_off (PLAT_SPM_BUF_BASE p) j"
      by (simp add: at_off_def)
  qed
  have arr: "m' (boot_mp_info L p m + of_nat k) = m (boot_mp_info L p m + of_nat k)"
    if "k < 16 * unat (boot_num_cpus L p m)" for k
  proof (rule marshal_frame [OF assms(1) m'])
    fix j assume "j < sizeof_boot_info L + 16 * unat (boot_num_cpus L p m)"
    then have "at_off (boot_mp_info L p m) k \<noteq> at_off (PLAT_SPM_BUF_BASE p) j"
      using that f(6) by (intro separate_at_off [OF sep]) auto
    then show "boot_mp_info L p m + of_nat k \<noteq> at_off (PLAT_SPM_BUF_BASE p) j"
      by (simp add: at_off_def)
  qed
  show ?thesis
    using marshal_succeeds [OF assms(1)] boot_info_patched_pointer [of L p m] bytes rec arr m'
    by simp
qed

theorem array_copied_from_platform_witness:
  "marshal_pre example_layout example_platform example_memory \<and>
   array_outside_buffer example_layout example_platform example_memory \<and>
   boot_mp_info example_layout example_platform example_memory = 0x2000 \<and>
   load64 (boot_info_patched example_layout example_platform example_memory) 0x8038 = 0x8040 \<and>
   memcpy (boot_info_patched example_layout example_platform example_memory) 0x8040 0x2000 32 0x8050
     = example_memory 0x2010 \<and>
   example_memory 0x2010 = 1"
proof -
  have n: "boot_num_cpus example_layout example_platform example_memory = 2"
    by (rule example_num_cpus) (simp add: example_platform_def)
  have a: "boot_mp_info example_layout example_platform example_memory = 0x2000"
    by (rule example_mp_info) (simp add: example_platform_def)
  have dst: "PLAT_SPM_BUF_BASE example_platform + of_nat (sizeof_boot_info example_layout) = 0x8040"
    "PLAT_SPM_BUF_BASE example_platform + of_nat (offsetof_mp_info example_layout) = 0x8038"
    by (simp_all add: example_platform_def example_layout_def)
  note t = array_copied_from_platform [OF example_pre example_outside, unfolded n a dst]
  have 1: "load64 (boot_info_patched example_layout example_platform example_memory) 0x8038 = 0x8040"
    using t by simp
  have "\<forall>k<32. memcpy (boot_info_patched example_layout example_platform example_memory)
           0x8040 0x2000 32 (0x8040 + of_nat k) = example_memory (0x2000 + of_nat k)"
    using t by simp
  then have "memcpy (boot_info_patched example_layout example_platform example_memory)
           0x8040 0x2000 32 (0x8040 + of_nat 16) = example_memory (0x2000 + of_nat 16)"
    by (rule allE [of _ 16]) simp
  then have 2: "memcpy (boot_info_patched example_layout example_platform example_memory)
           0x8040 0x2000 32 0x8050 = example_memory 0x2010"
    by simp
  show ?thesis
    using example_pre example_outside a 1 2 by (simp add: example_memory_def)
qed

lemma record_in_buffer_fields:
  "boot_num_cpus example_layout record_in_buffer_platform record_in_buffer_memory = 1"
  "boot_mp_info example_layout record_in_buffer_platform record_in_buffer_memory = 0x2000"
  by (simp_all add: boot_num_cpus_def boot_mp_info_def example_layout_def example_platform_def
      record_in_buffer_platform_def record_in_buffer_memory_def load32_def load64_def)

text \<open>
  The claim as stated fails: the code never checks where the platform's record lies. With
  the record at \<open>0x8040\<close>, inside the buffer just past the place of its copy, every assertion
  holds and neither \<^verbatim>\<open>memcpy\<close> has overlapping ranges, but the copy of the array is written
  over the platform's record: its first byte, \<open>0\<close> before the run, is \<open>0x55\<close> after it.
\<close>

theorem platform_record_in_buffer_overwritten:
  "ENABLE_ASSERTIONS record_in_buffer_platform \<and>
   plat_get_secure_partition_boot_info record_in_buffer_platform = 0x8040 \<and>
   PLAT_SPM_BUF_BASE record_in_buffer_platform = 0x8000 \<and>
   PLAT_SPM_BUF_SIZE record_in_buffer_platform = 0x100 \<and>
   boot_num_cpus example_layout record_in_buffer_platform record_in_buffer_memory = 1 \<and>
   boot_mp_info example_layout record_in_buffer_platform record_in_buffer_memory = 0x2000 \<and>
   record_in_buffer_memory 0x8040 = 0 \<and>
   (\<exists>m'. marshal_boot_info example_layout record_in_buffer_platform record_in_buffer_memory
            = Inr m' \<and>
         m' 0x8040 = 0x55)"
proof -
  let ?L = example_layout and ?p = record_in_buffer_platform and ?m = record_in_buffer_memory
  let ?m3 = "memcpy (boot_info_patched ?L ?p ?m) 0x8040 0x2000 16"
  have c: "PLAT_SPM_BUF_BASE ?p = 0x8000" "plat_get_secure_partition_boot_info ?p = 0x8040"
    "sizeof_boot_info ?L = 64" "offsetof_mp_info ?L = 56" "offsetof_num_cpus ?L = 52"
    "ENABLE_ASSERTIONS ?p" "PLAT_SPM_BUF_SIZE ?p = 0x100" "PLATFORM_CORE_COUNT ?p = 8"
    by (simp_all add: record_in_buffer_platform_def example_platform_def example_layout_def)
  have l: "layout_ok ?L"
    by (simp add: layout_ok_def example_layout_def)
  have s: "separate (plat_get_secure_partition_boot_info ?p) (sizeof_boot_info ?L)
             (PLAT_SPM_BUF_BASE ?p) (sizeof_boot_info ?L)"
    by (simp add: c separate_def)
  have ptr: "load64 (boot_info_copied ?L ?p ?m) (PLAT_SPM_BUF_BASE ?p + of_nat (offsetof_mp_info ?L))
               = 0x2000"
    using copied_mp_info [OF l s, of ?m] record_in_buffer_fields by simp
  have num: "boot_num_cpus ?L ?p (boot_info_patched ?L ?p ?m) = 1"
    using patched_num_cpus [OF l s, of ?m] record_in_buffer_fields by simp
  have run: "marshal_boot_info ?L ?p ?m = Inr (annotate_loop ?L ?p 0x8040 0x8040 0 ?m3)"
    unfolding marshal_boot_info_stages ptr num
    by (simp add: c assert_fails_def sizeof_mp_info_def)
  have other: "?m3 (at_off 0x8040 (52 + j)) = boot_info_patched ?L ?p ?m (at_off 0x8040 (52 + j))"
    if "j < 4" for j
  proof (rule memcpy_at_other)
    fix k :: nat assume "k < 16"
    then show "at_off (0x8040 :: 64 word) (52 + j) \<noteq> at_off 0x8040 k"
      using that by (subst at_off_eq) simp_all
  qed
  have "load32 ?m3 (at_off 0x8040 52) = load32 (boot_info_patched ?L ?p ?m) (at_off 0x8040 52)"
    by (rule load32_at_cong) (rule other)
  then have bound: "load32 ?m3 (at_off 0x8040 52) = 1"
    using num by (simp add: boot_num_cpus_def c at_off_def)
  have "annotate_loop ?L ?p 0x8040 0x8040 (of_nat 0) ?m3
          = fold (\<lambda>k. annotate_record ?L ?p 0x8040 (of_nat k)) [0..<1] ?m3"
  proof (rule annotate_loop_fold)
    show "1 = unat (load32 ?m3 (at_off 0x8040 (offsetof_num_cpus ?L)))"
      by (simp add: c bound)
    show "(0 :: nat) \<le> 1" by simp
    fix k d j :: nat assume "k < 1" "8 \<le> d" "d < 16" "j < 4"
    then show "at_off (0x8040 :: 64 word) (offsetof_num_cpus ?L + j) \<noteq> at_off 0x8040 (16 * k + d)"
      by (subst at_off_eq) (simp_all add: c)
  qed
  then have loop: "annotate_loop ?L ?p 0x8040 0x8040 0 ?m3
                     = annotate_record ?L ?p 0x8040 (of_nat 0) ?m3"
    by simp
  have "annotate_record ?L ?p 0x8040 (of_nat 0) ?m3 (at_off 0x8040 0) = ?m3 (at_off 0x8040 0)"
  proof (rule annotate_record_other)
    show "(0 :: nat) < 2 ^ 32" by simp
    fix d :: nat assume "8 \<le> d" "d < 16"
    then show "at_off (0x8040 :: 64 word) 0 \<noteq> at_off 0x8040 (16 * 0 + d)"
      by (subst at_off_eq) simp_all
  qed
  also have "\<dots> = boot_info_patched ?L ?p ?m (at_off 0x2000 0)"
  proof (rule memcpy_at_copied)
    show "(16 :: nat) \<le> 2 ^ 64" by simp
    show "(0 :: nat) < 16" by simp
    fix i k :: nat assume "i < 16" "k < 16"
    then show "at_off (0x2000 :: 64 word) i \<noteq> at_off 0x8040 k"
      by (intro separate_at_off [of _ 16 _ 16]) (simp_all add: separate_def)
  qed
  also have "\<dots> = ?m (at_off 0x2000 0)"
  proof (rule boot_info_patched_outside [OF l])
    fix k assume "k < sizeof_boot_info ?L"
    then show "at_off (0x2000 :: 64 word) 0 \<noteq> at_off (PLAT_SPM_BUF_BASE ?p) k"
      by (intro separate_at_off [of _ 1 _ 64]) (simp_all add: separate_def c)
  qed
  finally have "annotate_loop ?L ?p 0x8040 0x8040 0 ?m3 0x8040 = ?m 0x2000"
    by (simp add: loop at_off_def)
  moreover have "?m 0x2000 = 0x55" "?m 0x8040 = 0"
    by (simp_all add: record_in_buffer_memory_def)
  ultimately show ?thesis
    using run c record_in_buffer_fields by simp
qed

text \<open>
  C10, as amended. If the platform's record reports no cores and the Marshaller's
  preconditions hold (among them: the record's array pointer is not null and the record
  fits in the buffer), the Marshaller succeeds and leaves the memory with the record copied
  and its pointer patched, nothing else: the array copy has length zero, the loop returns
  the memory it is given, and every byte outside the record's place in the buffer is
  unchanged.
\<close>

theorem zero_cpus_marshalled:
  assumes "marshal_pre L p m" and "boot_num_cpus L p m = 0"
  shows "marshal_boot_info L p m = Inr (boot_info_patched L p m) \<and>
     boot_info_patched L p m
       = store64 (memcpy m (PLAT_SPM_BUF_BASE p) (plat_get_secure_partition_boot_info p)
                    (sizeof_boot_info L))
           (PLAT_SPM_BUF_BASE p + of_nat (offsetof_mp_info L))
           (PLAT_SPM_BUF_BASE p + of_nat (sizeof_boot_info L)) \<and>
     unat (ucast (boot_num_cpus L p (boot_info_patched L p m)) * sizeof_mp_info) = 0 \<and>
     annotate_loop L p (plat_get_secure_partition_boot_info p)
       (PLAT_SPM_BUF_BASE p + of_nat (sizeof_boot_info L)) 0 (boot_info_patched L p m)
       = boot_info_patched L p m \<and>
     (\<forall>x. (\<forall>k. k < sizeof_boot_info L \<longrightarrow> x \<noteq> PLAT_SPM_BUF_BASE p + of_nat k) \<longrightarrow>
          boot_info_patched L p m x = m x)"
proof -
  note f = marshal_pre_facts [OF assms(1)]
  have num: "boot_num_cpus L p (boot_info_patched L p m) = 0"
    using patched_num_cpus [OF f(1) f(7) f(8)] assms(2) by simp
  have loop: "annotate_loop L p (plat_get_secure_partition_boot_info p)
       (PLAT_SPM_BUF_BASE p + of_nat (sizeof_boot_info L)) 0 (boot_info_patched L p m)
       = boot_info_patched L p m"
    using num by (subst annotate_loop.simps) (simp add: boot_num_cpus_def)
  have run: "marshal_boot_info L p m = Inr (boot_info_patched L p m)"
    using marshal_succeeds [OF assms(1)] loop by (simp add: assms(2))
  have frame: "boot_info_patched L p m x = m x"
    if "\<forall>k. k < sizeof_boot_info L \<longrightarrow> x \<noteq> PLAT_SPM_BUF_BASE p + of_nat k" for x
    using that by (intro boot_info_patched_outside [OF f(1)]) (simp add: at_off_def)
  show ?thesis
    using run loop frame num
    by (simp add: boot_info_patched_def boot_info_copied_def)
qed

lemma no_cpus_fields:
  "boot_num_cpus example_layout example_platform no_cpus_memory = 0"
  "boot_mp_info example_layout example_platform no_cpus_memory = 0x2000"
  by (simp_all add: boot_num_cpus_def boot_mp_info_def example_layout_def example_platform_def
      no_cpus_memory_def load32_def load64_def)

lemma no_cpus_pre: "marshal_pre example_layout example_platform no_cpus_memory"
  unfolding marshal_pre_def no_cpus_fields
  by (simp add: layout_ok_def separate_def example_layout_def example_platform_def)

theorem zero_cpus_marshalled_witness:
  "marshal_pre example_layout example_platform no_cpus_memory \<and>
   boot_num_cpus example_layout example_platform no_cpus_memory = 0 \<and>
   marshal_boot_info example_layout example_platform no_cpus_memory
     = Inr (boot_info_patched example_layout example_platform no_cpus_memory) \<and>
   boot_info_patched example_layout example_platform no_cpus_memory
     = store64 (memcpy no_cpus_memory 0x8000 0x1000 64) 0x8038 0x8040"
proof -
  note t = zero_cpus_marshalled [OF no_cpus_pre no_cpus_fields(1), THEN conjunct1]
  have "boot_info_patched example_layout example_platform no_cpus_memory
     = store64 (memcpy no_cpus_memory 0x8000 0x1000 64) 0x8038 0x8040"
    by (simp add: boot_info_patched_def boot_info_copied_def example_platform_def example_layout_def)
  then show ?thesis
    using no_cpus_pre no_cpus_fields(1) t by simp
qed

lemma zero_memory_fields:
  "boot_num_cpus example_layout example_platform (\<lambda>a. 0) = 0"
  "boot_mp_info example_layout example_platform (\<lambda>a. 0) = 0"
  by (simp_all add: boot_num_cpus_def boot_mp_info_def load32_def load64_def)

lemma example_separate:
  "separate (plat_get_secure_partition_boot_info example_platform) (sizeof_boot_info example_layout)
     (PLAT_SPM_BUF_BASE example_platform) (unat (PLAT_SPM_BUF_SIZE example_platform))"
  by (simp add: separate_def example_platform_def example_layout_def)

lemma example_layout_ok: "layout_ok example_layout"
  by (simp add: layout_ok_def example_layout_def)

text \<open>
  The claim as stated fails: with assertions, a non-null record that reports no cores and
  has a null array pointer stops the Marshaller at the assertion of line 212.
\<close>

theorem zero_cpus_null_array_aborts:
  "ENABLE_ASSERTIONS example_platform \<and>
   plat_get_secure_partition_boot_info example_platform = 0x1000 \<and>
   boot_num_cpus example_layout example_platform (\<lambda>a. 0) = 0 \<and>
   marshal_boot_info example_layout example_platform (\<lambda>a. 0)
     = Inl (MP_INFO_NOT_NULL, boot_info_copied example_layout example_platform (\<lambda>a. 0))"
proof -
  have "load64 (boot_info_copied example_layout example_platform (\<lambda>a. 0))
          (PLAT_SPM_BUF_BASE example_platform + of_nat (offsetof_mp_info example_layout))
        = boot_mp_info example_layout example_platform (\<lambda>a. 0)"
    by (rule copied_mp_info [OF example_layout_ok example_separate])
      (simp add: example_platform_def example_layout_def)
  then have ptr: "load64 (boot_info_copied example_layout example_platform (\<lambda>a. 0))
          (PLAT_SPM_BUF_BASE example_platform + of_nat (offsetof_mp_info example_layout)) = 0"
    by (simp add: zero_memory_fields)
  have a: "PLAT_SPM_BUF_BASE example_platform + of_nat (sizeof_boot_info example_layout)
             \<le> PLAT_SPM_BUF_BASE example_platform + PLAT_SPM_BUF_SIZE example_platform"
    "PLAT_SPM_BUF_BASE example_platform \<le> (- 1) - PLAT_SPM_BUF_SIZE example_platform + 1"
    "plat_get_secure_partition_boot_info example_platform = 0x1000"
    "ENABLE_ASSERTIONS example_platform"
    by (simp_all add: example_platform_def example_layout_def)
  have "marshal_boot_info example_layout example_platform (\<lambda>a. 0)
     = Inl (MP_INFO_NOT_NULL, boot_info_copied example_layout example_platform (\<lambda>a. 0))"
    unfolding marshal_boot_info_stages
    using ptr a by (simp add: assert_fails_def)
  then show ?thesis
    using a by (simp add: zero_memory_fields)
qed

text \<open>
  C2, as amended. In a build with assertions, for a non-null record with a non-null array
  pointer that lies outside the buffer, a core count within the platform's maximum, and
  sizes for which none of the address computations of the checks wraps around, the
  Marshaller succeeds exactly when the record and the array fit in the buffer; when it
  fails, every byte outside the buffer is as it was.
\<close>

theorem marshal_succeeds_iff:
  assumes "ENABLE_ASSERTIONS p" and "layout_ok L"
    and "plat_get_secure_partition_boot_info p \<noteq> 0" and "boot_mp_info L p m \<noteq> 0"
    and "boot_num_cpus L p m \<le> PLATFORM_CORE_COUNT p"
    and "unat (PLAT_SPM_BUF_BASE p) + unat (PLAT_SPM_BUF_SIZE p) < 2 ^ 64"
    and "unat (PLAT_SPM_BUF_BASE p) + sizeof_boot_info L < 2 ^ 64"
    and "16 * unat (boot_num_cpus L p m)
           \<le> unat (PLAT_SPM_BUF_BASE p) + unat (PLAT_SPM_BUF_SIZE p)"
    and "separate (plat_get_secure_partition_boot_info p) (sizeof_boot_info L)
           (PLAT_SPM_BUF_BASE p) (unat (PLAT_SPM_BUF_SIZE p))"
  shows "((\<exists>m'. marshal_boot_info L p m = Inr m') \<longleftrightarrow>
            sizeof_boot_info L + 16 * unat (boot_num_cpus L p m) \<le> unat (PLAT_SPM_BUF_SIZE p)) \<and>
         (\<forall>a m' x. marshal_boot_info L p m = Inl (a, m') \<and>
                    (\<forall>k. k < unat (PLAT_SPM_BUF_SIZE p) \<longrightarrow> x \<noteq> PLAT_SPM_BUF_BASE p + of_nat k)
                    \<longrightarrow> m' x = m x)"
proof (cases "sizeof_boot_info L \<le> unat (PLAT_SPM_BUF_SIZE p)")
  case False
  then have "\<not> PLAT_SPM_BUF_BASE p + of_nat (sizeof_boot_info L)
                 \<le> PLAT_SPM_BUF_BASE p + PLAT_SPM_BUF_SIZE p"
    by (simp add: boot_info_fits_iff [OF assms(6) assms(7)])
  then have "marshal_boot_info L p m = Inl (BOOT_INFO_FITS, m)"
    using assms(1) by (simp add: marshal_boot_info_stages assert_fails_def)
  then show ?thesis
    using False by simp
next
  case True
  have ptr: "load64 (boot_info_copied L p m) (PLAT_SPM_BUF_BASE p + of_nat (offsetof_mp_info L))
               = boot_mp_info L p m"
    by (rule copied_mp_info [OF assms(2) assms(9) True])
  have num: "boot_num_cpus L p (boot_info_patched L p m) = boot_num_cpus L p m"
    by (rule patched_num_cpus [OF assms(2) assms(9) True])
  show ?thesis
  proof (cases "sizeof_boot_info L + 16 * unat (boot_num_cpus L p m) \<le> unat (PLAT_SPM_BUF_SIZE p)")
    case fits: True
    have "marshal_pre L p m"
      using assms fits by (simp add: marshal_pre_def)
    then have "\<exists>m'. marshal_boot_info L p m = Inr m'"
      using marshal_run by blast
    then show ?thesis
      using fits by auto
  next
    case nofit: False
    have a1: "PLAT_SPM_BUF_BASE p + of_nat (sizeof_boot_info L)
                \<le> PLAT_SPM_BUF_BASE p + PLAT_SPM_BUF_SIZE p"
      using True by (simp add: boot_info_fits_iff [OF assms(6) assms(7)])
    have "8 \<le> sizeof_boot_info L"
      using assms(2) by (simp add: layout_ok_def)
    then have "PLAT_SPM_BUF_SIZE p \<noteq> 0"
      using True by (auto simp: unat_eq_0)
    then have a2: "PLAT_SPM_BUF_BASE p \<le> (- 1) - PLAT_SPM_BUF_SIZE p + 1"
      by (rule buf_end_no_overflow [OF assms(6)])
    have a6: "\<not> PLAT_SPM_BUF_BASE p + of_nat (sizeof_boot_info L)
                \<le> PLAT_SPM_BUF_BASE p + PLAT_SPM_BUF_SIZE p
                    - ucast (boot_num_cpus L p m) * sizeof_mp_info"
      using nofit by (simp add: mp_info_fits_iff [OF assms(6) assms(7) assms(8)])
    have res: "marshal_boot_info L p m = Inl (MP_INFO_FITS, boot_info_patched L p m)"
      unfolding marshal_boot_info_stages ptr num
      using a1 a2 a6 assms(1,3,4,5) by (simp add: assert_fails_def)
    have "boot_info_patched L p m x = m x"
      if "\<forall>k. k < unat (PLAT_SPM_BUF_SIZE p) \<longrightarrow> x \<noteq> PLAT_SPM_BUF_BASE p + of_nat k" for x
      using that True by (intro boot_info_patched_outside [OF assms(2)]) (simp add: at_off_def)
    then show ?thesis
      using res nofit by simp
  qed
qed

theorem marshal_succeeds_iff_witness:
  "ENABLE_ASSERTIONS example_platform \<and>
   boot_num_cpus example_layout example_platform example_memory = 2 \<and>
   sizeof_boot_info example_layout + 16 * 2 \<le> unat (PLAT_SPM_BUF_SIZE example_platform) \<and>
   (\<exists>m'. marshal_boot_info example_layout example_platform example_memory = Inr m') \<and>
   \<not> sizeof_boot_info example_layout + 16 * 2
       \<le> unat (PLAT_SPM_BUF_SIZE (example_platform\<lparr>PLAT_SPM_BUF_SIZE := 0x50\<rparr>)) \<and>
   \<not> (\<exists>m'. marshal_boot_info example_layout (example_platform\<lparr>PLAT_SPM_BUF_SIZE := 0x50\<rparr>)
               example_memory = Inr m')"
proof -
  let ?q = "example_platform\<lparr>PLAT_SPM_BUF_SIZE := 0x50\<rparr>"
  have n: "boot_num_cpus example_layout example_platform example_memory = 2"
    by (rule example_num_cpus) (simp add: example_platform_def)
  have a: "boot_mp_info example_layout example_platform example_memory = 0x2000"
    by (rule example_mp_info) (simp add: example_platform_def)
  have n': "boot_num_cpus example_layout ?q example_memory = 2"
    by (rule example_num_cpus) (simp add: example_platform_def)
  have a': "boot_mp_info example_layout ?q example_memory = 0x2000"
    by (rule example_mp_info) (simp add: example_platform_def)
  have 1: "((\<exists>m'. marshal_boot_info example_layout example_platform example_memory = Inr m') \<longleftrightarrow>
            sizeof_boot_info example_layout
              + 16 * unat (boot_num_cpus example_layout example_platform example_memory)
              \<le> unat (PLAT_SPM_BUF_SIZE example_platform))"
    using n a
    by (intro marshal_succeeds_iff [THEN conjunct1])
      (simp_all add: example_platform_def example_layout_def layout_ok_def separate_def)
  have 2: "((\<exists>m'. marshal_boot_info example_layout ?q example_memory = Inr m') \<longleftrightarrow>
            sizeof_boot_info example_layout
              + 16 * unat (boot_num_cpus example_layout ?q example_memory)
              \<le> unat (PLAT_SPM_BUF_SIZE ?q))"
    using n' a'
    by (intro marshal_succeeds_iff [THEN conjunct1])
      (simp_all add: example_platform_def example_layout_def layout_ok_def separate_def)
  have e: "ENABLE_ASSERTIONS example_platform"
    "sizeof_boot_info example_layout + 16 * 2 \<le> unat (PLAT_SPM_BUF_SIZE example_platform)"
    "\<not> sizeof_boot_info example_layout + 16 * 2 \<le> unat (PLAT_SPM_BUF_SIZE ?q)"
    by (simp_all add: example_platform_def example_layout_def)
  show ?thesis
    using 1 2 e unfolding n n' by simp
qed

lemma annotate_record_platform:
  assumes "plat_core_pos_by_mpidr p = plat_core_pos_by_mpidr q"
    and "plat_my_core_pos p = plat_my_core_pos q"
  shows "annotate_record L p a i m = annotate_record L q a i m"
  using assms by (simp add: annotate_record_def)

lemma annotate_loop_platform:
  assumes "plat_core_pos_by_mpidr p = plat_core_pos_by_mpidr q"
    and "plat_my_core_pos p = plat_my_core_pos q"
  shows "annotate_loop L p b a i m = annotate_loop L q b a i m"
  using assms
proof (induction L p b a i m rule: annotate_loop.induct)
  case (1 L p b a i m)
  show ?case
  proof (cases "i < load32 m (b + of_nat (offsetof_num_cpus L))")
    case True
    have "annotate_loop L p b a (i + 1) (annotate_record L p a i m)
            = annotate_loop L q b a (i + 1) (annotate_record L p a i m)"
      using True "1.prems" by (intro "1.IH") auto
    then show ?thesis
      using True annotate_record_platform [OF "1.prems", of L a i m]
      by (subst (1 2) annotate_loop.simps) simp
  next
    case False
    then show ?thesis
      by (subst (1 2) annotate_loop.simps) simp
  qed
qed

text \<open>Without assertions the Marshaller does not look at the size of the buffer.\<close>

lemma production_ignores_size:
  assumes "\<not> ENABLE_ASSERTIONS p"
  shows "marshal_boot_info L (p\<lparr>PLAT_SPM_BUF_SIZE := s\<rparr>) m = marshal_boot_info L p m"
proof -
  have "annotate_loop L (p\<lparr>PLAT_SPM_BUF_SIZE := s\<rparr>) b a i m' = annotate_loop L p b a i m'"
    for b a i m'
    by (rule annotate_loop_platform) simp_all
  then show ?thesis
    using assms
    by (simp add: marshal_boot_info_stages assert_fails_def boot_info_copied_def
        boot_info_patched_def boot_num_cpus_def)
qed

text \<open>
  The claim as stated fails in both directions. Built without assertions, the Marshaller
  succeeds with two cores in a buffer of 80 bytes, where the record and the array need 96,
  and writes the second record at the buffer's end. Built with assertions and given a null
  record, it fails although the sizes fit.
\<close>

theorem production_build_overruns_buffer:
  "\<not> ENABLE_ASSERTIONS (example_platform\<lparr>ENABLE_ASSERTIONS := False, PLAT_SPM_BUF_SIZE := 0x50\<rparr>) \<and>
   boot_num_cpus example_layout
     (example_platform\<lparr>ENABLE_ASSERTIONS := False, PLAT_SPM_BUF_SIZE := 0x50\<rparr>) example_memory = 2 \<and>
   2 \<le> PLATFORM_CORE_COUNT (example_platform\<lparr>ENABLE_ASSERTIONS := False, PLAT_SPM_BUF_SIZE := 0x50\<rparr>) \<and>
   \<not> sizeof_boot_info example_layout + 2 * 16
       \<le> unat (PLAT_SPM_BUF_SIZE
                 (example_platform\<lparr>ENABLE_ASSERTIONS := False, PLAT_SPM_BUF_SIZE := 0x50\<rparr>)) \<and>
   PLAT_SPM_BUF_BASE (example_platform\<lparr>ENABLE_ASSERTIONS := False, PLAT_SPM_BUF_SIZE := 0x50\<rparr>)
     + PLAT_SPM_BUF_SIZE (example_platform\<lparr>ENABLE_ASSERTIONS := False, PLAT_SPM_BUF_SIZE := 0x50\<rparr>)
     = 0x8050 \<and>
   load64 example_memory 0x8050 = 0 \<and>
   (\<exists>m'. marshal_boot_info example_layout
            (example_platform\<lparr>ENABLE_ASSERTIONS := False, PLAT_SPM_BUF_SIZE := 0x50\<rparr>)
            example_memory = Inr m' \<and>
         load64 m' 0x8050 = 1) \<and>
   ENABLE_ASSERTIONS (example_platform\<lparr>plat_get_secure_partition_boot_info := 0\<rparr>) \<and>
   boot_num_cpus example_layout (example_platform\<lparr>plat_get_secure_partition_boot_info := 0\<rparr>)
     (\<lambda>a. 0) = 0 \<and>
   sizeof_boot_info example_layout + 0 * 16
     \<le> unat (PLAT_SPM_BUF_SIZE (example_platform\<lparr>plat_get_secure_partition_boot_info := 0\<rparr>)) \<and>
   marshal_boot_info example_layout (example_platform\<lparr>plat_get_secure_partition_boot_info := 0\<rparr>)
     (\<lambda>a. 0) = Inl (BOOT_INFO_NOT_NULL, \<lambda>a. 0)"
proof -
  let ?p = "example_platform\<lparr>ENABLE_ASSERTIONS := False\<rparr>"
  let ?q = "example_platform\<lparr>ENABLE_ASSERTIONS := False, PLAT_SPM_BUF_SIZE := 0x50\<rparr>"
  let ?z = "example_platform\<lparr>plat_get_secure_partition_boot_info := 0\<rparr>"
  have bi: "plat_get_secure_partition_boot_info ?p = 0x1000"
    "plat_get_secure_partition_boot_info ?q = 0x1000"
    by (simp_all add: example_platform_def)
  have pre: "marshal_pre example_layout ?p example_memory"
    by (rule example_pre_gen) (simp_all add: example_platform_def)
  have out: "array_outside_buffer example_layout ?p example_memory"
    by (rule example_pre_gen) (simp_all add: example_platform_def)
  obtain m' where m': "marshal_boot_info example_layout ?p example_memory = Inr m'"
    using marshal_run [OF pre] by blast
  have "read_mp_info m' (PLAT_SPM_BUF_BASE ?p + of_nat (sizeof_boot_info example_layout) + of_nat (16 * 1))
          = annotated example_layout ?p
              (read_mp_info example_memory (boot_mp_info example_layout ?p example_memory + of_nat (16 * 1)))"
    by (rule marshal_record [OF pre out m']) (simp add: example_num_cpus [OF bi(1)])
  then have "mpidr (read_mp_info m' 0x8050) = mpidr (read_mp_info example_memory 0x2010)"
    unfolding example_mp_info [OF bi(1)]
    by (simp add: example_platform_def example_layout_def annotated_fields)
  then have w: "load64 m' 0x8050 = 1"
    by (simp add: read_mp_info_def offsetof_mpidr_def example_memory_def load64_def)
  have "marshal_boot_info example_layout ?q example_memory = Inr m'"
    using production_ignores_size [of ?p example_layout "0x50" example_memory] m'
    by (simp add: example_platform_def)
  then have 1: "\<exists>m'. marshal_boot_info example_layout ?q example_memory = Inr m' \<and> load64 m' 0x8050 = 1"
    using w by blast
  have 2: "\<not> ENABLE_ASSERTIONS ?q" "2 \<le> PLATFORM_CORE_COUNT ?q"
    "\<not> sizeof_boot_info example_layout + 2 * 16 \<le> unat (PLAT_SPM_BUF_SIZE ?q)"
    "PLAT_SPM_BUF_BASE ?q + PLAT_SPM_BUF_SIZE ?q = 0x8050"
    "load64 example_memory 0x8050 = 0"
    by (simp_all add: example_platform_def example_layout_def example_memory_def load64_def)
  have 3: "ENABLE_ASSERTIONS ?z" "boot_num_cpus example_layout ?z (\<lambda>a. 0) = 0"
    "sizeof_boot_info example_layout + 0 * 16 \<le> unat (PLAT_SPM_BUF_SIZE ?z)"
    by (simp_all add: example_platform_def example_layout_def boot_num_cpus_def load32_def)
  have 4: "marshal_boot_info example_layout ?z (\<lambda>a. 0) = Inl (BOOT_INFO_NOT_NULL, \<lambda>a. 0)"
    by (simp add: marshal_boot_info_stages assert_fails_def example_platform_def example_layout_def)
  show ?thesis
    using 1 2 3 4 example_num_cpus [OF bi(2)] by simp
qed

text \<open>
  The hypothesis of the amended statement that \<open>num_cpus * 16\<close> does not exceed the address
  of the buffer's end leaves out runs like this one. The buffer ends at \<open>0x200\<close> and 40 records
  take 640 bytes, so the subtraction of line 235 wraps around and the assertion of line 234
  holds: with assertions, the Marshaller copies 640 bytes into what is left of a buffer of
  256.
\<close>

lemma fit_check_underflow:
  "ENABLE_ASSERTIONS low_buffer_platform \<and>
   boot_num_cpus example_layout low_buffer_platform many_cpus_memory = 40 \<and>
   40 \<le> PLATFORM_CORE_COUNT low_buffer_platform \<and>
   \<not> sizeof_boot_info example_layout + 40 * 16 \<le> unat (PLAT_SPM_BUF_SIZE low_buffer_platform) \<and>
   (\<exists>m'. marshal_boot_info example_layout low_buffer_platform many_cpus_memory = Inr m')"
proof -
  have f: "boot_num_cpus example_layout low_buffer_platform many_cpus_memory = 40"
    "boot_mp_info example_layout low_buffer_platform many_cpus_memory = 0x2000"
    by (simp_all add: boot_num_cpus_def boot_mp_info_def example_layout_def low_buffer_platform_def
        example_platform_def many_cpus_memory_def load32_def load64_def)
  have l: "layout_ok example_layout"
    by (simp add: layout_ok_def example_layout_def)
  have s: "separate (plat_get_secure_partition_boot_info low_buffer_platform)
             (sizeof_boot_info example_layout) (PLAT_SPM_BUF_BASE low_buffer_platform)
             (unat (PLAT_SPM_BUF_SIZE low_buffer_platform))"
    by (simp add: separate_def low_buffer_platform_def example_platform_def example_layout_def)
  have h: "sizeof_boot_info example_layout \<le> unat (PLAT_SPM_BUF_SIZE low_buffer_platform)"
    by (simp add: low_buffer_platform_def example_platform_def example_layout_def)
  have ptr: "load64 (boot_info_copied example_layout low_buffer_platform many_cpus_memory)
               (PLAT_SPM_BUF_BASE low_buffer_platform + of_nat (offsetof_mp_info example_layout))
             = 0x2000"
    using copied_mp_info [OF l s h, of many_cpus_memory] f by simp
  have num: "boot_num_cpus example_layout low_buffer_platform
               (boot_info_patched example_layout low_buffer_platform many_cpus_memory) = 40"
    using patched_num_cpus [OF l s h, of many_cpus_memory] f by simp
  have a: "PLAT_SPM_BUF_BASE low_buffer_platform + of_nat (sizeof_boot_info example_layout)
             \<le> PLAT_SPM_BUF_BASE low_buffer_platform + PLAT_SPM_BUF_SIZE low_buffer_platform"
    "PLAT_SPM_BUF_BASE low_buffer_platform \<le> (- 1) - PLAT_SPM_BUF_SIZE low_buffer_platform + 1"
    "plat_get_secure_partition_boot_info low_buffer_platform \<noteq> 0"
    "(40 :: 32 word) \<le> PLATFORM_CORE_COUNT low_buffer_platform"
    "PLAT_SPM_BUF_BASE low_buffer_platform + of_nat (sizeof_boot_info example_layout)
       \<le> PLAT_SPM_BUF_BASE low_buffer_platform + PLAT_SPM_BUF_SIZE low_buffer_platform
           - ucast (40 :: 32 word) * sizeof_mp_info"
    by (simp_all add: low_buffer_platform_def example_platform_def example_layout_def
        sizeof_mp_info_def)
  have "\<exists>m'. marshal_boot_info example_layout low_buffer_platform many_cpus_memory = Inr m'"
    unfolding marshal_boot_info_stages ptr num
    using a by (simp add: assert_fails_def)
  moreover have "ENABLE_ASSERTIONS low_buffer_platform"
    "\<not> sizeof_boot_info example_layout + 40 * 16 \<le> unat (PLAT_SPM_BUF_SIZE low_buffer_platform)"
    by (simp_all add: low_buffer_platform_def example_platform_def example_layout_def)
  ultimately show ?thesis
    using f(1) a(4) by simp
qed

end
